theory Spec2Isabelle
  imports Complex_Main "HOL-Library.Word" "HOL-Library.Log_Nat"
begin

section \<open>QR image generator: a model of \<open>src/server.js\<close>\<close>

text \<open>
  The program is one Express route, \<open>POST /generate-qr\<close>, and two generation functions.
  Its arithmetic is the logo geometry of \<open>generateQRCodeWithLogo\<close> (lines 42 to 59);
  everything else is a sequence of calls into the libraries \<open>qrcode\<close>, \<open>canvas\<close>,
  \<open>fs\<close> and \<open>path\<close> and into the Express response object.

  A JavaScript number is a binary64 value; the finite ones are rationals, and \<open>js_number\<close>
  is \<open>rat\<close>. The logo geometry is given twice. \<open>logo_geometry\<close> reads lines 43 to 59 in
  exact arithmetic: it is what the handler's \<open>drawImage\<close> call is stated with, and it is
  the code's own result wherever no quotient or product has to be rounded.
  \<open>logo_geometry64\<close> reads the same lines with every \<open>/\<close>, \<open>*\<close> and \<open>-\<close> rounded to
  binary64 (round to nearest, ties to even), which is what the code computes; what is said
  about the scaled dimensions of a clamped logo is said of it. The exponent of a rounded
  value is not bounded here, so the rounding is binary64's where nothing overflows or
  underflows; \<open>NaN\<close> and the infinities are not modelled: with image dimensions and a canvas
  width that are positive, neither clamp divides by zero.
\<close>

subsection \<open>Logo geometry (lines 42 to 59)\<close>

type_synonym js_number = rat

text \<open>\<open>Math.round\<close>: the nearest integer, a tie going up.\<close>

definition Math_round :: "js_number \<Rightarrow> int" where
  "Math_round v = \<lfloor>v + 1 / 2\<rfloor>"

text \<open>The four arguments that \<open>ctx.drawImage(img, x, y, logoWidthFinal, logoHeightFinal)\<close> gets.\<close>

record logo_placement =
  draw_x :: int
  draw_y :: int
  logoWidthFinal :: js_number
  logoHeightFinal :: js_number

text \<open>
  Lines 48 to 51, the first \<open>if\<close>, in exact arithmetic: it assigns both variables when
  the natural width is over the maximum.
\<close>

definition clamp_width :: "js_number \<Rightarrow> js_number \<Rightarrow> js_number \<Rightarrow> js_number \<times> js_number" where
  "clamp_width logoWidth logoHeight maxLogoWidth =
     (if logoWidth > maxLogoWidth
      then (maxLogoWidth, (logoHeight / logoWidth) * maxLogoWidth)
      else (logoWidth, logoHeight))"

text \<open>
  Lines 52 to 55, the second \<open>if\<close>, in exact arithmetic: it reads the height the first
  one left, and computes the new width from the natural dimensions.
\<close>

definition clamp_height ::
  "js_number \<Rightarrow> js_number \<Rightarrow> js_number \<Rightarrow> js_number \<times> js_number \<Rightarrow> js_number \<times> js_number" where
  "clamp_height logoWidth logoHeight maxLogoHeight wh =
     (if snd wh > maxLogoHeight
      then ((logoWidth / logoHeight) * maxLogoHeight, maxLogoHeight)
      else wh)"

definition logo_geometry :: "js_number \<Rightarrow> js_number \<Rightarrow> js_number \<Rightarrow> logo_placement" where
  "logo_geometry logoWidth logoHeight width =
     (let maxLogoWidth = width / 5;
          maxLogoHeight = width / 5;
          wh = clamp_height logoWidth logoHeight maxLogoHeight
                 (clamp_width logoWidth logoHeight maxLogoWidth)
      in \<lparr> draw_x = Math_round ((width - fst wh) / 2),
           draw_y = Math_round ((width - snd wh) / 2),
           logoWidthFinal = fst wh,
           logoHeightFinal = snd wh \<rparr>)"

subsection \<open>Binary64 arithmetic, and lines 42 to 59 in it\<close>

text \<open>
  The binade of a positive value \<open>v\<close> is the \<open>e\<close> with \<open>2 ^ e \<le> v < 2 ^ (e + 1)\<close>. A
  binary64 value of that binade is a multiple of \<open>2 ^ (e - 52)\<close>, its unit in the last place.
\<close>

definition binade :: "rat \<Rightarrow> int" where
  "binade v = (if 1 \<le> v then bitlen \<lfloor>v\<rfloor> - 1 else - bitlen (\<lceil>1 / v\<rceil> - 1))"

definition ulp :: "rat \<Rightarrow> rat" where
  "ulp v = 2 powi (binade v - 52)"

text \<open>The nearest integer, a tie going to the even one.\<close>

definition round_even :: "rat \<Rightarrow> int" where
  "round_even v =
     (let f = \<lfloor>v\<rfloor>; r = v - of_int f
      in if r < 1 / 2 then f else if 1 / 2 < r then f + 1 else if even f then f else f + 1)"

text \<open>The binary64 value nearest to \<open>v\<close>: 53 significant bits, ties to even.\<close>

definition fl :: "rat \<Rightarrow> js_number" where
  "fl v = (if v = 0 then 0
           else sgn v * (of_int (round_even (\<bar>v\<bar> / ulp \<bar>v\<bar>)) * ulp \<bar>v\<bar>))"

definition js_div :: "js_number \<Rightarrow> js_number \<Rightarrow> js_number" where
  "js_div a b = fl (a / b)"

definition js_mul :: "js_number \<Rightarrow> js_number \<Rightarrow> js_number" where
  "js_mul a b = fl (a * b)"

definition js_sub :: "js_number \<Rightarrow> js_number \<Rightarrow> js_number" where
  "js_sub a b = fl (a - b)"

text \<open>Lines 48 to 51.\<close>

definition clamp_width64 :: "js_number \<Rightarrow> js_number \<Rightarrow> js_number \<Rightarrow> js_number \<times> js_number" where
  "clamp_width64 logoWidth logoHeight maxLogoWidth =
     (if logoWidth > maxLogoWidth
      then (maxLogoWidth, js_mul (js_div logoHeight logoWidth) maxLogoWidth)
      else (logoWidth, logoHeight))"

text \<open>Lines 52 to 55.\<close>

definition clamp_height64 ::
  "js_number \<Rightarrow> js_number \<Rightarrow> js_number \<Rightarrow> js_number \<times> js_number \<Rightarrow> js_number \<times> js_number" where
  "clamp_height64 logoWidth logoHeight maxLogoHeight wh =
     (if snd wh > maxLogoHeight
      then (js_mul (js_div logoWidth logoHeight) maxLogoHeight, maxLogoHeight)
      else wh)"

text \<open>Lines 43 to 59. \<open>Math.round\<close> is exact on the binary64 value it is given.\<close>

definition logo_geometry64 :: "js_number \<Rightarrow> js_number \<Rightarrow> js_number \<Rightarrow> logo_placement" where
  "logo_geometry64 logoWidth logoHeight width =
     (let maxLogoWidth = js_div width 5;
          maxLogoHeight = js_div width 5;
          wh = clamp_height64 logoWidth logoHeight maxLogoHeight
                 (clamp_width64 logoWidth logoHeight maxLogoWidth)
      in \<lparr> draw_x = Math_round (js_div (js_sub width (fst wh)) 2),
           draw_y = Math_round (js_div (js_sub width (snd wh)) 2),
           logoWidthFinal = fst wh,
           logoHeightFinal = snd wh \<rparr>)"

text \<open>
  The procedure as the specification words it (section 4.2, steps 2 to 5), kept apart
  from the definition above so that the two can be compared: step 3 is
  \<open>scaledH = lh * (maxW / lw)\<close>, step 4 is \<open>scaledW = lw * (maxH / lh)\<close>.
\<close>

definition spec_composite_geometry64 :: "js_number \<Rightarrow> js_number \<Rightarrow> js_number \<Rightarrow> logo_placement" where
  "spec_composite_geometry64 lw lh rasterWidth =
     (let maxW = js_div rasterWidth 5;
          maxH = js_div rasterWidth 5;
          scaledW3 = (if lw > maxW then maxW else lw);
          scaledH3 = (if lw > maxW then js_mul lh (js_div maxW lw) else lh);
          scaledH = (if scaledH3 > maxH then maxH else scaledH3);
          scaledW = (if scaledH3 > maxH then js_mul lw (js_div maxH lh) else scaledW3)
      in \<lparr> draw_x = round (js_div (js_sub rasterWidth scaledW) 2),
           draw_y = round (js_div (js_sub rasterWidth scaledH) 2),
           logoWidthFinal = scaledW,
           logoHeightFinal = scaledH \<rparr>)"

text \<open>
  The same steps with the two products in the order the code has them: step 3 is
  \<open>scaledH = (lh / lw) * maxW\<close>, step 4 is \<open>scaledW = (lw / lh) * maxH\<close>, from the natural
  \<open>lw\<close> and \<open>lh\<close>.
\<close>

definition ordered_composite_geometry64 ::
  "js_number \<Rightarrow> js_number \<Rightarrow> js_number \<Rightarrow> logo_placement" where
  "ordered_composite_geometry64 lw lh rasterWidth =
     (let maxW = js_div rasterWidth 5;
          maxH = js_div rasterWidth 5;
          scaledW3 = (if lw > maxW then maxW else lw);
          scaledH3 = (if lw > maxW then js_mul (js_div lh lw) maxW else lh);
          scaledH = (if scaledH3 > maxH then maxH else scaledH3);
          scaledW = (if scaledH3 > maxH then js_mul (js_div lw lh) maxH else scaledW3)
      in \<lparr> draw_x = round (js_div (js_sub rasterWidth scaledW) 2),
           draw_y = round (js_div (js_sub rasterWidth scaledH) 2),
           logoWidthFinal = scaledW,
           logoHeightFinal = scaledH \<rparr>)"

text \<open>
  What the second clamp is said not to be: the width taken from the result of step 3,
  \<open>scaledW = (scaledW3 / scaledH3) * maxH\<close>.
\<close>

definition step3_composite_geometry64 ::
  "js_number \<Rightarrow> js_number \<Rightarrow> js_number \<Rightarrow> logo_placement" where
  "step3_composite_geometry64 lw lh rasterWidth =
     (let maxW = js_div rasterWidth 5;
          maxH = js_div rasterWidth 5;
          scaledW3 = (if lw > maxW then maxW else lw);
          scaledH3 = (if lw > maxW then js_mul (js_div lh lw) maxW else lh);
          scaledH = (if scaledH3 > maxH then maxH else scaledH3);
          scaledW = (if scaledH3 > maxH then js_mul (js_div scaledW3 scaledH3) maxH else scaledW3)
      in \<lparr> draw_x = round (js_div (js_sub rasterWidth scaledW) 2),
           draw_y = round (js_div (js_sub rasterWidth scaledH) 2),
           logoWidthFinal = scaledW,
           logoHeightFinal = scaledH \<rparr>)"

subsection \<open>Values, errors and the libraries\<close>

text \<open>
  A parsed JSON value. The request body is an object, modelled as a map from its keys; a
  key that is absent reads as \<open>undefined\<close>, which is \<open>None\<close>.
\<close>

datatype json =
    JNull
  | JBool bool
  | JNumber js_number
  | JString string
  | JArray "json list"
  | JObject "(string \<times> json) list"

text \<open>JavaScript's truthiness of a defined value: what \<open>if (v)\<close> and \<open>!v\<close> test.\<close>

fun truthy :: "json \<Rightarrow> bool" where
  "truthy JNull = False"
| "truthy (JBool b) = b"
| "truthy (JNumber n) = (n \<noteq> 0)"
| "truthy (JString s) = (s \<noteq> [])"
| "truthy (JArray _) = True"
| "truthy (JObject _) = True"

text \<open>A thrown value.\<close>

datatype js_error = JsError string

type_synonym buffer = "8 word list"

text \<open>The options object of lines 26 to 33 and of lines 83 to 90.\<close>

record qr_options =
  errorCorrectionLevel :: string
  margin :: nat
  color_dark :: string
  color_light :: string

text \<open>
  The libraries are not part of the repository: they are parameters of the model. A call
  that can throw returns a sum. \<open>QRCode.toCanvas\<close> and \<open>drawImage\<close> paint on the canvas
  they are given; here they return the painted canvas.
\<close>

record ('c, 'i) libs =
  createCanvas :: "js_number \<Rightarrow> js_number \<Rightarrow> 'c"
  QRCode_toCanvas :: "'c \<Rightarrow> json \<Rightarrow> qr_options \<Rightarrow> js_error + 'c"
  loadImage :: "string \<Rightarrow> js_error + 'i"
  img_width :: "'i \<Rightarrow> js_number"
  img_height :: "'i \<Rightarrow> js_number"
  drawImage :: "'c \<Rightarrow> 'i \<Rightarrow> int \<Rightarrow> int \<Rightarrow> js_number \<Rightarrow> js_number \<Rightarrow> js_error + 'c"
  toDataURL :: "'c \<Rightarrow> string \<Rightarrow> js_error + string"
  Buffer_from_base64 :: "string \<Rightarrow> buffer"

subsection \<open>The world: file system, clock, response object, and a trace of the calls\<close>

datatype event =
    CreateCanvas js_number js_number
  | QRCodeToCanvas json qr_options
  | LoadImage string
  | DrawImage int int js_number js_number
  | ToDataURL string
  | ExistsSync string
  | MkdirSync string
  | WriteFileSync string buffer
  | ConsoleLog string
  | ConsoleError string js_error
  | ResStatus nat
  | ResSetHeader string string
  | ResJson json
  | ResSend buffer

datatype fs_node = Dir | File buffer

datatype http_body = JsonBody json | RawBody buffer

text \<open>The response: its status code, the headers set with \<open>res.setHeader\<close>, the body sent.\<close>

record response =
  statusCode :: nat
  headers :: "(string \<times> string) list"
  body :: "http_body option"

text \<open>
  \<open>dirname\<close> is the module's \<open>__dirname\<close>, \<open>cwd\<close> the working directory of the process,
  \<open>clock\<close> what \<open>Date.now()\<close> returns. Whether \<open>fs.mkdirSync\<close> or \<open>fs.writeFileSync\<close>
  throws on a path is the environment's choice.
\<close>

record world =
  dirname :: string
  cwd :: string
  clock :: nat
  fs :: "string \<rightharpoonup> fs_node"
  mkdir_throws :: "string \<Rightarrow> bool"
  write_throws :: "string \<Rightarrow> bool"
  res :: response
  trace :: "event list"

type_synonym 'a eff = "world \<Rightarrow> (js_error + 'a) \<times> world"

definition ret :: "'a \<Rightarrow> 'a eff" where
  "ret a w = (Inr a, w)"

definition throw :: "js_error \<Rightarrow> 'a eff" where
  "throw e w = (Inl e, w)"

text \<open>One statement after another: a throw skips what follows.\<close>

definition and_then :: "'a eff \<Rightarrow> ('a \<Rightarrow> 'b eff) \<Rightarrow> 'b eff" where
  "and_then m f w = (case m w of (Inl e, w') \<Rightarrow> (Inl e, w') | (Inr a, w') \<Rightarrow> f a w')"

definition try_catch :: "'a eff \<Rightarrow> (js_error \<Rightarrow> 'a eff) \<Rightarrow> 'a eff" where
  "try_catch m h w = (case m w of (Inl e, w') \<Rightarrow> h e w' | (Inr a, w') \<Rightarrow> (Inr a, w'))"

definition emit :: "event \<Rightarrow> world \<Rightarrow> world" where
  "emit ev w = w\<lparr>trace := trace w @ [ev]\<rparr>"

text \<open>A library call: recorded in the trace, then its result or its throw.\<close>

definition lib_call :: "event \<Rightarrow> js_error + 'a \<Rightarrow> 'a eff" where
  "lib_call ev r w = (r, emit ev w)"

definition console_log :: "string \<Rightarrow> unit eff" where
  "console_log s w = (Inr (), emit (ConsoleLog s) w)"

definition console_error :: "string \<Rightarrow> js_error \<Rightarrow> unit eff" where
  "console_error s e w = (Inr (), emit (ConsoleError s e) w)"

definition fs_existsSync :: "string \<Rightarrow> bool eff" where
  "fs_existsSync p w = (Inr (fs w p \<noteq> None), emit (ExistsSync p) w)"

definition fs_mkdirSync :: "string \<Rightarrow> unit eff" where
  "fs_mkdirSync p w =
     (if mkdir_throws w p then (Inl (JsError ''mkdir''), emit (MkdirSync p) w)
      else (Inr (), emit (MkdirSync p) (w\<lparr>fs := (fs w)(p \<mapsto> Dir)\<rparr>)))"

definition fs_writeFileSync :: "string \<Rightarrow> buffer \<Rightarrow> unit eff" where
  "fs_writeFileSync p b w =
     (if write_throws w p then (Inl (JsError ''write''), emit (WriteFileSync p b) w)
      else (Inr (), emit (WriteFileSync p b) (w\<lparr>fs := (fs w)(p \<mapsto> File b)\<rparr>)))"

definition Date_now :: "nat eff" where
  "Date_now w = (Inr (clock w), w)"

definition res_status :: "nat \<Rightarrow> unit eff" where
  "res_status n w = (Inr (), emit (ResStatus n) (w\<lparr>res := (res w)\<lparr>statusCode := n\<rparr>\<rparr>))"

definition res_setHeader :: "string \<Rightarrow> string \<Rightarrow> unit eff" where
  "res_setHeader k v w =
     (Inr (), emit (ResSetHeader k v)
        (w\<lparr>res := (res w)\<lparr>headers := (k, v) # filter (\<lambda>kv. fst kv \<noteq> k) (headers (res w))\<rparr>\<rparr>))"

definition res_json :: "json \<Rightarrow> unit eff" where
  "res_json j w = (Inr (), emit (ResJson j) (w\<lparr>res := (res w)\<lparr>body := Some (JsonBody j)\<rparr>\<rparr>))"

definition res_send :: "buffer \<Rightarrow> unit eff" where
  "res_send b w = (Inr (), emit (ResSend b) (w\<lparr>res := (res w)\<lparr>body := Some (RawBody b)\<rparr>\<rparr>))"

subsection \<open>Strings and paths\<close>

text \<open>A non-negative integer in a template literal: its decimal digits.\<close>

definition digit_char :: "nat \<Rightarrow> char" where
  "digit_char d =
     (if d = 0 then CHR ''0'' else if d = 1 then CHR ''1'' else if d = 2 then CHR ''2''
      else if d = 3 then CHR ''3'' else if d = 4 then CHR ''4'' else if d = 5 then CHR ''5''
      else if d = 6 then CHR ''6'' else if d = 7 then CHR ''7'' else if d = 8 then CHR ''8''
      else CHR ''9'')"

function show_nat :: "nat \<Rightarrow> string" where
  "show_nat n = (if n < 10 then [digit_char n] else show_nat (n div 10) @ [digit_char (n mod 10)])"
  by pat_completeness auto
termination
  by (relation "measure id") auto

declare show_nat.simps [simp del]

text \<open>
  \<open>path.join(a, b)\<close> for the operands the handler gives it: \<open>a\<close> an absolute normalised
  directory and \<open>b\<close> one name, so that joining only places the separator.
\<close>

definition path_join :: "string \<Rightarrow> string \<Rightarrow> string" where
  "path_join a b =
     (if a = [] then b else if last a = CHR ''/'' then a @ b else a @ ''/'' @ b)"

text \<open>Line 116: \<open>replace(/^data:image\/png;base64,/, "")\<close> removes the prefix where it is there.\<close>

definition strip_data_url :: "string \<Rightarrow> string" where
  "strip_data_url s =
     (let prefix = ''data:image/png;base64,''
      in if take (length prefix) s = prefix then drop (length prefix) s else s)"

subsection \<open>The two generation functions (lines 21 to 93)\<close>

definition qr_render_options :: qr_options where
  "qr_render_options =
     \<lparr> errorCorrectionLevel = ''H'', margin = 1,
       color_dark = ''#000000'', color_light = ''#ffffff'' \<rparr>"

text \<open>
  \<open>canvas.getContext("2d")\<close> gives the drawing context of the same canvas, so \<open>drawImage\<close>
  takes the canvas here. The \<open>catch\<close> of lines 66 to 69 logs the error and throws it again.
\<close>

definition generateQRCodeWithLogo ::
  "('c, 'i) libs \<Rightarrow> json \<Rightarrow> string \<Rightarrow> js_number \<Rightarrow> string eff" where
  "generateQRCodeWithLogo L dataForQRcode center_image width =
     try_catch
       (and_then (lib_call (CreateCanvas width width) (Inr (createCanvas L width width))) (\<lambda>canvas.
        and_then (lib_call (QRCodeToCanvas dataForQRcode qr_render_options)
                    (QRCode_toCanvas L canvas dataForQRcode qr_render_options)) (\<lambda>canvas.
        and_then (lib_call (LoadImage center_image) (loadImage L center_image)) (\<lambda>img.
        let p = logo_geometry (img_width L img) (img_height L img) width
        in and_then (lib_call (DrawImage (draw_x p) (draw_y p) (logoWidthFinal p) (logoHeightFinal p))
                       (drawImage L canvas img (draw_x p) (draw_y p)
                          (logoWidthFinal p) (logoHeightFinal p))) (\<lambda>canvas.
           lib_call (ToDataURL ''image/png'') (toDataURL L canvas ''image/png''))))))
       (\<lambda>error. and_then (console_error ''Error generating QR code:'' error) (\<lambda>_. throw error))"

definition generateQRCodeWithoutLogo :: "('c, 'i) libs \<Rightarrow> json \<Rightarrow> js_number \<Rightarrow> string eff" where
  "generateQRCodeWithoutLogo L data width =
     and_then (lib_call (CreateCanvas width width) (Inr (createCanvas L width width))) (\<lambda>canvas.
     and_then (lib_call (QRCodeToCanvas data qr_render_options)
                 (QRCode_toCanvas L canvas data qr_render_options)) (\<lambda>canvas.
     lib_call (ToDataURL ''image/png'') (toDataURL L canvas ''image/png'')))"

subsection \<open>The route \<open>POST /generate-qr\<close> (lines 99 to 142)\<close>

definition missing_data_json :: json where
  "missing_data_json = JObject [(''error'', JString ''Missing required field: data'')]"

definition failed_json :: json where
  "failed_json = JObject [(''error'', JString ''Failed to generate QR code'')]"

text \<open>Lines 115 to 137: decode, save, respond.\<close>

definition save_and_send :: "('c, 'i) libs \<Rightarrow> string \<Rightarrow> unit eff" where
  "save_and_send L qrCodeBase64 w =
     (let base64Data = strip_data_url qrCodeBase64;
          qrCodeBuffer = Buffer_from_base64 L base64Data;
          outputDir = path_join (dirname w) ''output''
      in and_then (fs_existsSync outputDir) (\<lambda>there.
         and_then (if \<not> there then fs_mkdirSync outputDir else ret ()) (\<lambda>_.
         and_then Date_now (\<lambda>now.
         let outputFileName = ''qr-code-'' @ show_nat now @ ''.png'';
             outputPath = path_join outputDir outputFileName
         in and_then (fs_writeFileSync outputPath qrCodeBuffer) (\<lambda>_.
            and_then (console_log (''QR code saved to: '' @ outputPath)) (\<lambda>_.
            and_then (res_setHeader ''Content-Type'' ''image/png'') (\<lambda>_.
            and_then (res_setHeader ''Content-Disposition'' ''inline; filename=qr-code.png'') (\<lambda>_.
            res_send qrCodeBuffer))))))) w)"

text \<open>
  Lines 101 to 137, the body of the \<open>try\<close>. \<open>!data\<close> holds for \<open>undefined\<close> and for a
  value that is not truthy; the default of \<open>enableLogo\<close> applies to \<open>undefined\<close> only.
\<close>

definition generate_qr_try :: "('c, 'i) libs \<Rightarrow> (string \<rightharpoonup> json) \<Rightarrow> unit eff" where
  "generate_qr_try L req_body =
     (let data = req_body ''data'';
          enableLogo = (case req_body ''enableLogo'' of None \<Rightarrow> JBool True | Some v \<Rightarrow> v)
      in case data of
           None \<Rightarrow> and_then (res_status 400) (\<lambda>_. res_json missing_data_json)
         | Some d \<Rightarrow>
             if \<not> truthy d then and_then (res_status 400) (\<lambda>_. res_json missing_data_json)
             else and_then
                    (if truthy enableLogo
                     then generateQRCodeWithLogo L d ''./src/images/logo1.jpg'' 400
                     else generateQRCodeWithoutLogo L d 400)
                    (save_and_send L))"

text \<open>The handler: the \<open>try\<close> and its \<open>catch\<close> (lines 138 to 141). It leaves a world.\<close>

definition generate_qr :: "('c, 'i) libs \<Rightarrow> (string \<rightharpoonup> json) \<Rightarrow> world \<Rightarrow> world" where
  "generate_qr L req_body w =
     snd (try_catch (generate_qr_try L req_body)
            (\<lambda>error. and_then (console_error ''Error in /generate-qr:'' error) (\<lambda>_.
                      and_then (res_status 500) (\<lambda>_. res_json failed_json))) w)"

text \<open>What a run adds to the trace.\<close>

definition new_events :: "('c, 'i) libs \<Rightarrow> (string \<rightharpoonup> json) \<Rightarrow> world \<Rightarrow> event list" where
  "new_events L req_body w = drop (length (trace w)) (trace (generate_qr L req_body w))"

subsection \<open>Reading the trace\<close>

fun is_render :: "event \<Rightarrow> bool" where
  "is_render (CreateCanvas _ _) = True"
| "is_render (QRCodeToCanvas _ _) = True"
| "is_render _ = False"

fun is_encode :: "event \<Rightarrow> bool" where
  "is_encode (QRCodeToCanvas _ _) = True"
| "is_encode _ = False"

fun is_load :: "event \<Rightarrow> bool" where
  "is_load (LoadImage _) = True"
| "is_load _ = False"

fun is_draw :: "event \<Rightarrow> bool" where
  "is_draw (DrawImage _ _ _ _) = True"
| "is_draw _ = False"

fun is_write :: "event \<Rightarrow> bool" where
  "is_write (WriteFileSync _ _) = True"
| "is_write _ = False"

fun is_send :: "event \<Rightarrow> bool" where
  "is_send (ResSend _) = True"
| "is_send _ = False"

subsection \<open>A stand-in for the libraries, to run the model on concrete requests\<close>

text \<open>
  A canvas is the list of what was painted on it, an image its two natural dimensions.
  The encoder takes strings only; the one image there is, is the logo, 200 by 200.
\<close>

datatype paint = QRSymbol json qr_options | LogoAt int int js_number js_number

definition demo_libs :: "(paint list, js_number \<times> js_number) libs" where
  "demo_libs =
     \<lparr> createCanvas = (\<lambda>w h. []),
       QRCode_toCanvas = (\<lambda>c d opts. case d of JString s \<Rightarrow> Inr (c @ [QRSymbol d opts])
                                         | _ \<Rightarrow> Inl (JsError ''Invalid data'')),
       loadImage = (\<lambda>p. if p = ''./src/images/logo1.jpg'' then Inr (200, 200)
                         else Inl (JsError ''ENOENT'')),
       img_width = fst,
       img_height = snd,
       drawImage = (\<lambda>c img px py w h. Inr (c @ [LogoAt px py w h])),
       toDataURL = (\<lambda>c mime. Inr (''data:image/png;base64,'' @ replicate (length c) CHR ''A'')),
       Buffer_from_base64 = map (\<lambda>ch. of_nat (of_char ch)) \<rparr>"

text \<open>The same with the logo file missing.\<close>

definition demo_libs_no_logo :: "(paint list, js_number \<times> js_number) libs" where
  "demo_libs_no_logo = demo_libs\<lparr>loadImage := (\<lambda>p. Inl (JsError ''ENOENT''))\<rparr>"

text \<open>
  A process started in \<open>/app\<close> as \<open>node src/server.js\<close>, which is where the logo path
  \<open>./src/images/logo1.jpg\<close> points into the repository; no \<open>output\<close> directory yet.
\<close>

definition demo_world :: world where
  "demo_world =
     \<lparr> dirname = ''/app/src'', cwd = ''/app'', clock = 1700000000000,
       fs = [''/app'' \<mapsto> Dir, ''/app/src'' \<mapsto> Dir],
       mkdir_throws = (\<lambda>p. False), write_throws = (\<lambda>p. False),
       res = \<lparr> statusCode = 200, headers = [], body = None \<rparr>,
       trace = [] \<rparr>"

section \<open>Properties of the logo geometry\<close>

lemma Math_round_eq_round: "Math_round v = round v"
  by (simp add: Math_round_def round_def)

lemma floor_numeral_div:
  "\<lfloor>numeral a / numeral b :: rat\<rfloor> = numeral a div numeral b"
  using floor_divide_of_int_eq [of "numeral a" "numeral b", where ?'a = rat] by simp

subsection \<open>Binary64 rounding\<close>

lemma ceiling_numeral_div:
  "\<lceil>numeral a / numeral b :: rat\<rceil> = - ((- numeral a) div numeral b)"
  using floor_divide_of_int_eq [of "- numeral a" "numeral b", where ?'a = rat]
  by (simp add: ceiling_def)

text \<open>Unfolding a rounding of a concrete value.\<close>

lemmas fl_eval = fl_def ulp_def binade_def round_even_def Let_def compute_bitlen
  floor_numeral_div ceiling_numeral_div js_div_def js_mul_def js_sub_def

lemma binade_bounds:
  assumes "0 < v"
  shows "2 powi binade v \<le> v" and "v < 2 powi (binade v + 1)"
proof -
  have both: "2 powi binade v \<le> v \<and> v < 2 powi (binade v + 1)"
  proof (cases "1 \<le> v")
    case True
    let ?n = "\<lfloor>v\<rfloor>"
    from True have n: "0 < ?n" by simp
    have b1: "1 \<le> bitlen ?n" using n bitlen_eq_zero_iff [of ?n] bitlen_nonneg [of ?n] by linarith
    from bitlen_bounds [OF n] have lo: "2 ^ nat (bitlen ?n - 1) \<le> ?n" and hi: "?n < 2 ^ nat (bitlen ?n)"
      by simp_all
    have e: "binade v = bitlen ?n - 1" using True by (simp add: binade_def)
    have "(2::rat) powi (bitlen ?n - 1) = 2 ^ nat (bitlen ?n - 1)"
      using b1 by (simp add: power_int_def)
    also have "\<dots> = of_int (2 ^ nat (bitlen ?n - 1))" by simp
    also have "\<dots> \<le> of_int ?n" using lo by (simp only: of_int_le_iff)
    also have "\<dots> \<le> v" by simp
    finally have A: "2 powi binade v \<le> v" by (simp add: e)
    from hi have "?n + 1 \<le> 2 ^ nat (bitlen ?n)" by simp
    then have "(of_int (?n + 1) :: rat) \<le> of_int (2 ^ nat (bitlen ?n))" by (simp only: of_int_le_iff)
    moreover have "v < of_int (?n + 1)" by linarith
    ultimately have "v < of_int (2 ^ nat (bitlen ?n))" by linarith
    also have "\<dots> = 2 powi (bitlen ?n)" using b1 by (simp add: power_int_def)
    finally have "v < 2 powi (binade v + 1)" by (simp add: e)
    with A show ?thesis by simp
  next
    case False
    let ?y = "1 / v"
    let ?c = "\<lceil>?y\<rceil>"
    let ?k = "bitlen (?c - 1)"
    from False assms have y: "1 < ?y" by simp
    then have c: "2 \<le> ?c" by (simp add: le_ceiling_iff)
    then have c1: "0 < ?c - 1" by simp
    have k1: "1 \<le> ?k" using c1 bitlen_eq_zero_iff [of "?c - 1"] bitlen_nonneg [of "?c - 1"] by linarith
    from bitlen_bounds [OF c1] have lo: "2 ^ nat (?k - 1) \<le> ?c - 1" and hi: "?c - 1 < 2 ^ nat ?k"
      by simp_all
    have e: "binade v = - ?k" using False by (simp add: binade_def)
    from hi have "?c \<le> 2 ^ nat ?k" by simp
    then have "(of_int ?c :: rat) \<le> of_int (2 ^ nat ?k)" by (simp only: of_int_le_iff)
    moreover have "?y \<le> of_int ?c" by simp
    moreover have "(of_int (2 ^ nat ?k) :: rat) = 2 ^ nat ?k" by simp
    ultimately have "?y \<le> 2 ^ nat ?k" by linarith
    then have "1 / v \<le> 2 powi ?k" using k1 by (simp add: power_int_def)
    then have "1 \<le> 2 powi ?k * v" using assms by (simp add: field_simps)
    then have "inverse (2 powi ?k) \<le> v" by (simp add: field_simps)
    then have A: "2 powi binade v \<le> v" by (simp add: e power_int_minus)
    have "(of_int (2 ^ nat (?k - 1)) :: rat) \<le> of_int (?c - 1)" using lo by (simp only: of_int_le_iff)
    moreover have "of_int (?c - 1) < ?y" using ceiling_correct [of ?y] by simp
    moreover have "(of_int (2 ^ nat (?k - 1)) :: rat) = 2 ^ nat (?k - 1)" by simp
    ultimately have "2 ^ nat (?k - 1) < ?y" by linarith
    then have "2 powi (?k - 1) < 1 / v" using k1 by (simp add: power_int_def)
    then have "2 powi (?k - 1) * v < 1" using assms by (simp add: field_simps)
    then have "v < inverse (2 powi (?k - 1))" by (simp add: field_simps)
    then have "v < 2 powi (- (?k - 1))" by (simp only: power_int_minus)
    then have "v < 2 powi (binade v + 1)" by (simp add: e)
    with A show ?thesis by simp
  qed
  from both show "2 powi binade v \<le> v" and "v < 2 powi (binade v + 1)" by simp_all
qed

lemma pow2_less_cancel: "(2::rat) powi a < 2 powi b \<Longrightarrow> a < b"
  using power_int_increasing [of b a "2::rat"] by (cases "a < b") auto

lemma binade_unique:
  assumes "2 powi k \<le> v" and "v < 2 powi (k + 1)"
  shows "binade v = k"
proof -
  have pos: "0 < v" using assms(1) by (meson less_le_trans zero_less_numeral zero_less_power_int)
  note b = binade_bounds [OF pos]
  have "(2::rat) powi k < 2 powi (binade v + 1)" using assms(1) b(2) by linarith
  then have "k < binade v + 1" by (rule pow2_less_cancel)
  moreover have "(2::rat) powi binade v < 2 powi (k + 1)" using assms(2) b(1) by linarith
  then have "binade v < k + 1" by (rule pow2_less_cancel)
  ultimately show ?thesis by simp
qed

lemma round_even_cases:
  obtains (down) "round_even v = \<lfloor>v\<rfloor>" "v - of_int \<lfloor>v\<rfloor> \<le> 1 / 2"
        | (up) "round_even v = \<lfloor>v\<rfloor> + 1" "1 / 2 \<le> v - of_int \<lfloor>v\<rfloor>"
proof (cases "v - of_int \<lfloor>v\<rfloor> < 1 / 2")
  case True
  then show ?thesis by (intro down) (simp_all add: round_even_def Let_def)
next
  case False
  show ?thesis
  proof (cases "1 / 2 < v - of_int \<lfloor>v\<rfloor>")
    case True
    with False show ?thesis by (intro up) (simp_all add: round_even_def Let_def)
  next
    case half: False
    with False have eq: "v - of_int \<lfloor>v\<rfloor> = 1 / 2" by simp
    show ?thesis
    proof (cases "even \<lfloor>v\<rfloor>")
      case True
      with eq show ?thesis by (intro down) (simp_all add: round_even_def Let_def)
    next
      case False
      with eq show ?thesis by (intro up) (simp_all add: round_even_def Let_def)
    qed
  qed
qed

lemma round_even_le: "of_int (round_even v) \<le> v + 1 / 2"
proof (cases v rule: round_even_cases)
  case down
  have "of_int \<lfloor>v\<rfloor> \<le> v" by simp
  with down show ?thesis by linarith
next
  case up
  have "of_int (\<lfloor>v\<rfloor> + 1) = (of_int \<lfloor>v\<rfloor> :: rat) + 1" by simp
  with up show ?thesis by linarith
qed

lemma round_even_ge: "v - 1 / 2 \<le> of_int (round_even v)"
proof (cases v rule: round_even_cases)
  case down
  then show ?thesis by linarith
next
  case up
  have "of_int (\<lfloor>v\<rfloor> + 1) = (of_int \<lfloor>v\<rfloor> :: rat) + 1" by simp
  moreover have "v < of_int \<lfloor>v\<rfloor> + 1" by linarith
  ultimately show ?thesis using up by linarith
qed

lemma round_even_of_int: "round_even (of_int n) = n"
  by (simp add: round_even_def)

lemma round_even_mono:
  assumes "v \<le> w"
  shows "round_even v \<le> round_even w"
proof (rule ccontr)
  assume "\<not> round_even v \<le> round_even w"
  then have "round_even w + 1 \<le> round_even v" by simp
  then have "(of_int (round_even w) :: rat) + 1 \<le> of_int (round_even v)"
    by (metis of_int_1 of_int_add of_int_le_iff)
  with round_even_le [of v] round_even_ge [of w] assms have "v = w" by linarith
  with \<open>\<not> round_even v \<le> round_even w\<close> show False by simp
qed

lemma ulp_pos: "0 < ulp v"
  by (simp add: ulp_def)

lemma fl_pos_eq: "0 < v \<Longrightarrow> fl v = of_int (round_even (v / ulp v)) * ulp v"
  by (simp add: fl_def)

lemma mantissa_range:
  assumes "0 < v"
  shows "2 ^ 52 \<le> v / ulp v" and "v / ulp v < 2 ^ 53"
proof -
  have u: "ulp v * 2 ^ 52 = 2 powi binade v" "ulp v * 2 ^ 53 = 2 powi (binade v + 1)"
    by (simp_all add: ulp_def power_int_diff power_int_add)
  from binade_bounds [OF assms] u have "ulp v * 2 ^ 52 \<le> v" "v < ulp v * 2 ^ 53" by simp_all
  then show "2 ^ 52 \<le> v / ulp v" and "v / ulp v < 2 ^ 53"
    using ulp_pos [of v] by (simp_all add: field_simps)
qed

lemma fl_mantissa:
  assumes "0 < v"
  shows "2 ^ 52 \<le> round_even (v / ulp v)" and "round_even (v / ulp v) \<le> 2 ^ 53"
proof -
  from mantissa_range [OF assms]
  have "round_even (of_int (2 ^ 52)) \<le> round_even (v / ulp v)"
    and "round_even (v / ulp v) \<le> round_even (of_int (2 ^ 53))"
    by (auto intro!: round_even_mono)
  then show "2 ^ 52 \<le> round_even (v / ulp v)" and "round_even (v / ulp v) \<le> 2 ^ 53"
    by (simp_all only: round_even_of_int)
qed

lemma fl_bounds:
  assumes "0 < v"
  shows "2 powi binade v \<le> fl v" and "fl v \<le> 2 powi (binade v + 1)"
proof -
  have u: "2 ^ 52 * ulp v = 2 powi binade v" "2 ^ 53 * ulp v = 2 powi (binade v + 1)"
    by (simp_all add: ulp_def power_int_diff power_int_add)
  from fl_mantissa [OF assms]
  have "(of_int (2 ^ 52) :: rat) \<le> of_int (round_even (v / ulp v))"
    and "(of_int (round_even (v / ulp v)) :: rat) \<le> of_int (2 ^ 53)"
    by (simp_all only: of_int_le_iff)
  then have "2 ^ 52 * ulp v \<le> of_int (round_even (v / ulp v)) * ulp v"
    and "of_int (round_even (v / ulp v)) * ulp v \<le> 2 ^ 53 * ulp v"
    using ulp_pos [of v] by (simp_all add: mult_le_cancel_right)
  then show "2 powi binade v \<le> fl v" and "fl v \<le> 2 powi (binade v + 1)"
    by (simp_all only: u fl_pos_eq [OF assms])
qed

lemma fl_pos: "0 < v \<Longrightarrow> 0 < fl v"
  using fl_bounds(1) [of v] zero_less_power_int [of "2::rat" "binade v"] by linarith

lemma fl_error_ulp:
  assumes "0 < v"
  shows "\<bar>fl v - v\<bar> \<le> ulp v / 2"
proof -
  let ?u = "ulp v"
  let ?n = "round_even (v / ?u)"
  have "\<bar>of_int ?n - v / ?u\<bar> \<le> 1 / 2"
    using round_even_le [of "v / ?u"] round_even_ge [of "v / ?u"] by linarith
  then have "\<bar>of_int ?n - v / ?u\<bar> * ?u \<le> 1 / 2 * ?u"
    using ulp_pos [of v] by (simp add: mult_le_cancel_right)
  moreover have "\<bar>of_int ?n - v / ?u\<bar> * ?u = \<bar>of_int ?n * ?u - v\<bar>"
    using ulp_pos [of v] by (simp add: abs_mult_pos' [symmetric] field_simps)
  ultimately show ?thesis by (simp add: fl_pos_eq [OF assms])
qed

lemma fl_error:
  assumes "0 < v"
  shows "\<bar>fl v - v\<bar> \<le> v / 2 ^ 53"
proof -
  from mantissa_range(1) [OF assms] have "ulp v \<le> v / 2 ^ 52"
    using ulp_pos [of v] by (simp add: field_simps)
  with fl_error_ulp [OF assms] show ?thesis by simp
qed

text \<open>Just below 1 the doubles are \<open>2 ^ -53\<close> apart.\<close>

lemma ulp_below_one:
  assumes "1 / 2 \<le> v" "v < 1"
  shows "ulp v = 1 / 2 ^ 53"
proof -
  from assms have "2 powi (- 1) \<le> v" "v < 2 powi (- 1 + 1)" by simp_all
  then have "binade v = - 1" by (rule binade_unique)
  then show ?thesis by (simp add: ulp_def)
qed

lemma binade_mono:
  assumes "0 < v" "v \<le> w"
  shows "binade v \<le> binade w"
proof -
  from assms have "0 < w" by simp
  from binade_bounds(1) [OF \<open>0 < v\<close>] binade_bounds(2) [OF \<open>0 < w\<close>] assms(2)
  have "(2::rat) powi binade v < 2 powi (binade w + 1)" by linarith
  then have "binade v < binade w + 1" by (rule pow2_less_cancel)
  then show ?thesis by simp
qed

lemma fl_mono:
  assumes "0 < v" "v \<le> w"
  shows "fl v \<le> fl w"
proof -
  from assms have w: "0 < w" by simp
  show ?thesis
  proof (cases "binade v = binade w")
    case True
    then have u: "ulp v = ulp w" by (simp add: ulp_def)
    from assms(2) ulp_pos [of w] have "v / ulp w \<le> w / ulp w" by (simp add: divide_right_mono)
    then have "round_even (v / ulp w) \<le> round_even (w / ulp w)" by (rule round_even_mono)
    then have "(of_int (round_even (v / ulp w)) :: rat) \<le> of_int (round_even (w / ulp w))"
      by (simp only: of_int_le_iff)
    then show ?thesis
      using ulp_pos [of w] by (simp add: fl_pos_eq [OF assms(1)] fl_pos_eq [OF w] u mult_le_cancel_right)
  next
    case False
    with binade_mono [OF assms] have "binade v + 1 \<le> binade w" by simp
    then have "(2::rat) powi (binade v + 1) \<le> 2 powi binade w"
      by (intro power_int_increasing) simp_all
    with fl_bounds(2) [OF assms(1)] fl_bounds(1) [OF w] show ?thesis by linarith
  qed
qed

lemma fl_half:
  assumes "0 < v"
  shows "fl (v / 2) = fl v / 2"
proof -
  from assms have h: "0 < v / 2" by simp
  have p: "(2::rat) powi (binade v - 1) = 2 powi binade v / 2"
    "(2::rat) powi (binade v - 1 + 1) = 2 powi (binade v + 1) / 2"
    by (simp_all add: power_int_diff power_int_add)
  from binade_bounds [OF assms] have "2 powi (binade v - 1) \<le> v / 2"
    "v / 2 < 2 powi (binade v - 1 + 1)" unfolding p by simp_all
  then have b: "binade (v / 2) = binade v - 1" by (rule binade_unique)
  have u: "ulp (v / 2) = ulp v / 2"
    by (simp add: ulp_def b power_int_diff)
  have "v / 2 / (ulp v / 2) = v / ulp v" by simp
  then show ?thesis by (simp add: fl_pos_eq [OF assms] fl_pos_eq [OF h] u)
qed

lemma fl_idem:
  assumes "0 < v"
  shows "fl (fl v) = fl v"
proof -
  let ?u = "ulp v"
  let ?n = "round_even (v / ?u)"
  have f: "fl v = of_int ?n * ?u" by (rule fl_pos_eq [OF assms])
  have pos: "0 < fl v" by (rule fl_pos [OF assms])
  have u52: "2 ^ 52 * ?u = 2 powi binade v" and u53: "2 ^ 53 * ?u = 2 powi (binade v + 1)"
    by (simp_all add: ulp_def power_int_diff power_int_add)
  show ?thesis
  proof (cases "?n = 2 ^ 53")
    case True
    then have n: "(of_int ?n :: rat) = 2 ^ 53" by simp
    have top: "fl v = 2 powi (binade v + 1)" by (simp only: f n u53)
    have "(2::rat) powi (binade v + 1) < 2 powi (binade v + 1 + 1)"
      by (intro power_int_strict_increasing) simp_all
    then have b: "binade (fl v) = binade v + 1"
      unfolding top by (intro binade_unique) simp_all
    have u: "ulp (fl v) = 2 * ?u" by (simp add: ulp_def b power_int_diff power_int_add)
    have "fl v / ulp (fl v) = 2 ^ 53 * ?u / (2 * ?u)" by (simp only: u) (simp only: f n)
    also have "\<dots> = of_int (2 ^ 52)" using ulp_pos [of v] by simp
    finally have "round_even (fl v / ulp (fl v)) = 2 ^ 52" by (simp only: round_even_of_int)
    then have "fl (fl v) = of_int (2 ^ 52) * (2 * ?u)" by (simp only: fl_pos_eq [OF pos] u)
    also have "\<dots> = 2 ^ 53 * ?u" by simp
    also have "\<dots> = fl v" by (simp only: f n)
    finally show ?thesis .
  next
    case False
    with fl_mantissa(2) [OF assms] have "?n < 2 ^ 53" by simp
    then have "(of_int ?n :: rat) < of_int (2 ^ 53)" by (simp only: of_int_less_iff)
    then have "of_int ?n * ?u < 2 ^ 53 * ?u" using ulp_pos [of v] by (simp add: mult_less_cancel_right)
    then have hi: "fl v < 2 powi (binade v + 1)" by (simp only: f u53)
    from fl_bounds(1) [OF assms] hi have b: "binade (fl v) = binade v" by (rule binade_unique)
    have u: "ulp (fl v) = ?u" by (simp add: ulp_def b)
    have "fl v / ?u = of_int ?n" using ulp_pos [of v] by (simp add: f)
    then have "round_even (fl v / ?u) = ?n" by (simp only: round_even_of_int)
    then have "fl (fl v) = of_int ?n * ?u" by (simp only: fl_pos_eq [OF pos] u)
    then show ?thesis by (simp only: f)
  qed
qed

text \<open>Rounding never crosses a double.\<close>

lemma fl_le_double: "0 < v \<Longrightarrow> v \<le> c \<Longrightarrow> fl c = c \<Longrightarrow> fl v \<le> c"
  using fl_mono [of v c] by simp

lemma fl_ge_double: "0 < c \<Longrightarrow> c \<le> v \<Longrightarrow> fl c = c \<Longrightarrow> c \<le> fl v"
  using fl_mono [of c v] by simp

subsection \<open>Lines 42 to 59 in binary64\<close>

lemma fl_one: "fl 1 = 1"
  by (simp add: fl_eval)

lemma fl_rel:
  assumes "0 < v"
  shows "v * (1 - 1 / 2 ^ 53) \<le> fl v" and "fl v \<le> v * (1 + 1 / 2 ^ 53)"
proof -
  from fl_error [OF assms] have "fl v - v \<le> v / 2 ^ 53" and "v - fl v \<le> v / 2 ^ 53"
    by linarith+
  then show "v * (1 - 1 / 2 ^ 53) \<le> fl v" and "fl v \<le> v * (1 + 1 / 2 ^ 53)"
    by (simp_all add: algebra_simps)
qed

lemma two_roundings:
  assumes "0 < q" "0 < m"
  shows "q * m * (1 - 1 / 2 ^ 53)\<^sup>2 \<le> fl (fl q * m)"
    and "fl (fl q * m) \<le> q * m * (1 + 1 / 2 ^ 53)\<^sup>2"
proof -
  let ?lo = "1 - 1 / 2 ^ 53 :: rat" and ?hi = "1 + 1 / 2 ^ 53 :: rat"
  have lo: "0 < ?lo" and hi: "0 < ?hi" by simp_all
  from fl_pos [OF assms(1)] assms(2) have p: "0 < fl q * m" by simp
  have "q * m * ?lo\<^sup>2 = (q * ?lo) * m * ?lo" by (simp add: power2_eq_square)
  also have "\<dots> \<le> fl q * m * ?lo"
    using fl_rel(1) [OF assms(1)] assms(2) lo by (intro mult_right_mono) simp_all
  also have "\<dots> \<le> fl (fl q * m)" by (rule fl_rel(1) [OF p])
  finally show "q * m * ?lo\<^sup>2 \<le> fl (fl q * m)" .
  have "fl (fl q * m) \<le> fl q * m * ?hi" by (rule fl_rel(2) [OF p])
  also have "\<dots> \<le> (q * ?hi) * m * ?hi"
    using fl_rel(2) [OF assms(1)] assms(2) hi by (intro mult_right_mono) simp_all
  also have "\<dots> = q * m * ?hi\<^sup>2" by (simp add: power2_eq_square)
  finally show "fl (fl q * m) \<le> q * m * ?hi\<^sup>2" .
qed

lemma two_roundings_ratio:
  assumes "0 < q" "0 < m"
  shows "(1 - 1 / 2 ^ 53)\<^sup>2 \<le> fl (fl q * m) / (q * m)"
    and "fl (fl q * m) / (q * m) \<le> (1 + 1 / 2 ^ 53)\<^sup>2"
proof -
  from assms have p: "0 < q * m" by simp
  from two_roundings(1) [OF assms] have "(1 - 1 / 2 ^ 53)\<^sup>2 * (q * m) \<le> fl (fl q * m)"
    by (subst mult.commute)
  then show "(1 - 1 / 2 ^ 53)\<^sup>2 \<le> fl (fl q * m) / (q * m)"
    by (subst pos_le_divide_eq [OF p])
  from two_roundings(2) [OF assms] have "fl (fl q * m) \<le> (1 + 1 / 2 ^ 53)\<^sup>2 * (q * m)"
    by (subst mult.commute)
  then show "fl (fl q * m) / (q * m) \<le> (1 + 1 / 2 ^ 53)\<^sup>2"
    by (subst pos_divide_le_eq [OF p])
qed

lemma near_one:
  fixes t :: rat
  assumes "(1 - 1 / 2 ^ 53)\<^sup>2 \<le> t" "t \<le> (1 + 1 / 2 ^ 53)\<^sup>2"
  shows "\<bar>1 - t\<bar> \<le> t / 2 ^ 51" and "\<bar>t - 1\<bar> \<le> 1 / 2 ^ 51"
proof -
  from assms have "(1 - 1 / 2 ^ 53) * (1 - 1 / 2 ^ 53) \<le> t" "t \<le> (1 + 1 / 2 ^ 53) * (1 + 1 / 2 ^ 53)"
    by (simp_all add: power2_eq_square)
  then have "1 - t \<le> t / 2 ^ 51 \<and> t - 1 \<le> t / 2 ^ 51 \<and> t - 1 \<le> 1 / 2 ^ 51 \<and> 1 - t \<le> 1 / 2 ^ 51"
    by simp
  then show "\<bar>1 - t\<bar> \<le> t / 2 ^ 51" and "\<bar>t - 1\<bar> \<le> 1 / 2 ^ 51"
    by linarith+
qed


text \<open>What the two clamps leave, for positive dimensions and a maximum that is a positive double.\<close>

lemma clamps64_cases:
  assumes "0 < lw" "0 < lh" "0 < m" "fl m = m"
  obtains
    (none) "lw \<le> m" "lh \<le> m"
      "clamp_height64 lw lh m (clamp_width64 lw lh m) = (lw, lh)"
  | (width) "m < lw" "fl (fl (lh / lw) * m) \<le> m"
      "clamp_height64 lw lh m (clamp_width64 lw lh m) = (m, fl (fl (lh / lw) * m))"
  | (height) "lw \<le> lh"
      "clamp_height64 lw lh m (clamp_width64 lw lh m) = (fl (fl (lw / lh) * m), m)"
proof (cases "m < lw")
  case True
  show ?thesis
  proof (cases "m < fl (fl (lh / lw) * m)")
    case over: True
    have "lw \<le> lh"
    proof (rule ccontr)
      assume "\<not> lw \<le> lh"
      with assms have "lh / lw \<le> 1" by simp
      moreover from assms have "0 < lh / lw" by simp
      ultimately have "fl (lh / lw) \<le> 1" by (intro fl_le_double fl_one)
      with assms have "fl (lh / lw) * m \<le> m" by (simp add: mult_le_cancel_right1)
      moreover from assms have "0 < fl (lh / lw) * m" by (simp add: fl_pos)
      ultimately have "fl (fl (lh / lw) * m) \<le> m" using assms(4) by (intro fl_le_double)
      with over show False by simp
    qed
    with True over show ?thesis
      by (intro height) (simp_all add: clamp_width64_def clamp_height64_def js_mul_def js_div_def)
  next
    case False
    with True show ?thesis
      by (intro width) (simp_all add: clamp_width64_def clamp_height64_def js_mul_def js_div_def)
  qed
next
  case False
  show ?thesis
  proof (cases "m < lh")
    case True
    with False show ?thesis
      by (intro height) (simp_all add: clamp_width64_def clamp_height64_def js_mul_def js_div_def)
  next
    case lh: False
    with False show ?thesis
      by (intro none) (simp_all add: clamp_width64_def clamp_height64_def)
  qed
qed

lemma clamps64_bounded:
  assumes "0 < lw" "0 < lh" "0 < m" "fl m = m"
  defines "wh \<equiv> clamp_height64 lw lh m (clamp_width64 lw lh m)"
  shows "0 < fst wh" "fst wh \<le> m" "0 < snd wh" "snd wh \<le> m"
proof -
  from assms(1-4) have "0 < fst wh \<and> fst wh \<le> m \<and> 0 < snd wh \<and> snd wh \<le> m"
  proof (cases rule: clamps64_cases)
    case none
    with assms show ?thesis by simp
  next
    case width
    from assms have "0 < fl (lh / lw) * m" by (simp add: fl_pos)
    then have "0 < fl (fl (lh / lw) * m)" by (rule fl_pos)
    with width assms show ?thesis by simp
  next
    case height
    with assms have "lw / lh \<le> 1" by simp
    moreover from assms have "0 < lw / lh" by simp
    ultimately have "fl (lw / lh) \<le> 1" by (intro fl_le_double fl_one)
    with assms have "fl (lw / lh) * m \<le> m" by (simp add: mult_le_cancel_right1)
    moreover from assms have p: "0 < fl (lw / lh) * m" by (simp add: fl_pos)
    ultimately have "fl (fl (lw / lh) * m) \<le> m" using assms(4) by (intro fl_le_double)
    moreover from p have "0 < fl (fl (lw / lh) * m)" by (rule fl_pos)
    ultimately show ?thesis using height assms by simp
  qed
  then show "0 < fst wh" "fst wh \<le> m" "0 < snd wh" "snd wh \<le> m" by simp_all
qed

lemma ratio_after_width_clamp:
  fixes lw lh m t h :: rat
  assumes "0 < lw" "0 < lh" "0 < m" "0 < t" "h = t * (lh / lw * m)"
  shows "m / h - lw / lh = (lw / lh) * ((1 - t) / t)"
  using assms(1-4) unfolding assms(5) by (simp add: field_simps)

lemma ratio_after_height_clamp:
  fixes lw lh m t w :: rat
  assumes "0 < lw" "0 < lh" "0 < m" "w = t * (lw / lh * m)"
  shows "w / m - lw / lh = (lw / lh) * (t - 1)"
  using assms(1-3) unfolding assms(4) by (simp add: field_simps)

lemma clamps64_ratio:
  assumes "0 < lw" "0 < lh" "0 < m" "fl m = m"
  defines "wh \<equiv> clamp_height64 lw lh m (clamp_width64 lw lh m)"
  shows "\<bar>fst wh / snd wh - lw / lh\<bar> \<le> (lw / lh) / 2 ^ 51"
  using assms(1-4)
proof (cases rule: clamps64_cases)
  case none
  with assms show ?thesis by simp
next
  case width
  let ?q = "lh / lw"
  let ?H = "fl (fl ?q * m)"
  define t where "t = ?H / (?q * m)"
  from assms have q: "0 < ?q" and qm: "0 < ?q * m" by simp_all
  from two_roundings_ratio [OF q \<open>0 < m\<close>]
  have tb: "(1 - 1 / 2 ^ 53)\<^sup>2 \<le> t" "t \<le> (1 + 1 / 2 ^ 53)\<^sup>2"
    unfolding t_def .
  note n = near_one(1) [OF tb]
  have H: "?H = t * (?q * m)" using assms by (simp add: t_def)
  have tpos: "0 < t" using tb(1) by (simp add: power2_eq_square)
  have "m / ?H - lw / lh = (lw / lh) * ((1 - t) / t)"
    by (rule ratio_after_width_clamp [OF assms(1-3) tpos H])
  then have "\<bar>m / ?H - lw / lh\<bar> = (lw / lh) * (\<bar>1 - t\<bar> / t)"
    using assms tpos by (simp add: abs_mult)
  also have "\<bar>1 - t\<bar> / t \<le> 1 / 2 ^ 51"
    using n tpos by (simp add: pos_divide_le_eq)
  then have "(lw / lh) * (\<bar>1 - t\<bar> / t) \<le> (lw / lh) * (1 / 2 ^ 51)"
    using assms by (intro mult_left_mono) simp_all
  finally show ?thesis using width by (simp add: wh_def)
next
  case height
  let ?r = "lw / lh"
  let ?W = "fl (fl ?r * m)"
  define t where "t = ?W / (?r * m)"
  from assms have r: "0 < ?r" and rm: "0 < ?r * m" by simp_all
  from two_roundings_ratio [OF r \<open>0 < m\<close>]
  have "(1 - 1 / 2 ^ 53)\<^sup>2 \<le> t" "t \<le> (1 + 1 / 2 ^ 53)\<^sup>2"
    unfolding t_def .
  note n = near_one(2) [OF this]
  have W: "?W = t * (?r * m)" using assms by (simp add: t_def)
  have "?W / m - ?r = ?r * (t - 1)"
    by (rule ratio_after_height_clamp [OF assms(1-3) W])
  then have "\<bar>?W / m - ?r\<bar> = ?r * \<bar>t - 1\<bar>"
    using assms by (simp add: abs_mult)
  also have "\<dots> \<le> ?r * (1 / 2 ^ 51)"
    using n r by (intro mult_left_mono) simp_all
  finally show ?thesis using height by (simp add: wh_def)
qed

text \<open>
  A box of side \<open>s\<close>, at most a quarter of a width that is a double of at least 2,
  placed by lines 58 and 59, stays inside.
\<close>

lemma centred_inside64:
  assumes "0 < s" "s \<le> w / 4" "fl w = w" "2 \<le> w"
  shows "0 \<le> Math_round (js_div (js_sub w s) 2)"
    and "of_int (Math_round (js_div (js_sub w s) 2)) + s \<le> w"
proof -
  from assms have room: "0 < w - s" by simp
  then have f: "0 < fl (w - s)" by (rule fl_pos)
  from room assms have le: "fl (w - s) \<le> w" by (intro fl_le_double) simp_all
  have d: "js_div (js_sub w s) 2 = fl (w - s) / 2"
    by (simp add: js_div_def js_sub_def fl_half [OF f] fl_idem [OF room])
  from f show "0 \<le> Math_round (js_div (js_sub w s) 2)"
    by (simp add: d Math_round_def)
  have "of_int (Math_round (fl (w - s) / 2)) \<le> fl (w - s) / 2 + 1 / 2"
    unfolding Math_round_def by (rule of_int_floor_le)
  with le assms show "of_int (Math_round (js_div (js_sub w s) 2)) + s \<le> w"
    unfolding d by linarith
qed

lemma fifth_le_quarter:
  assumes "0 < w" "fl w = w"
  shows "0 < js_div w 5" "fl (js_div w 5) = js_div w 5" "js_div w 5 \<le> w / 4"
proof -
  from assms have p: "0 < w / 5" by simp
  show "0 < js_div w 5" unfolding js_div_def by (rule fl_pos [OF p])
  show "fl (js_div w 5) = js_div w 5" unfolding js_div_def by (rule fl_idem [OF p])
  from assms have "0 < w / 2" by simp
  from fl_half [OF this] fl_half [OF assms(1)] assms(2) have q: "fl (w / 4) = w / 4" by simp
  from assms have "w / 5 \<le> w / 4" by simp
  from fl_mono [OF p this] q show "js_div w 5 \<le> w / 4" by (simp add: js_div_def)
qed

text \<open>A natural number up to \<open>2 ^ 53\<close> is a double.\<close>

lemma fl_of_nat:
  assumes "0 < n" "n \<le> 2 ^ 53"
  shows "fl (of_nat n) = of_nat n"
proof -
  let ?v = "of_nat n :: rat"
  from assms have pos: "0 < ?v" by simp
  note b = binade_bounds [OF pos]
  from assms have one: "(2::rat) powi 0 \<le> ?v" by simp
  with b(2) have "(2::rat) powi 0 < 2 powi (binade ?v + 1)" by linarith
  then have lo: "0 \<le> binade ?v" using pow2_less_cancel [of 0 "binade ?v + 1"] by simp
  from assms have "?v \<le> 2 ^ 53" by (metis of_nat_le_iff of_nat_numeral of_nat_power)
  then have top: "?v < 2 powi 54" by simp
  with b(1) have "(2::rat) powi binade ?v < 2 powi 54" by linarith
  then have hi: "binade ?v < 54" by (rule pow2_less_cancel)
  show ?thesis
  proof (cases "binade ?v = 53")
    case True
    with b(1) \<open>?v \<le> 2 ^ 53\<close> have v: "?v = 2 ^ 53" by simp
    show ?thesis unfolding v by (simp add: fl_eval)
  next
    case False
    with hi have e: "binade ?v \<le> 52" by simp
    define j where "j = nat (52 - binade ?v)"
    have u: "ulp ?v = 1 / 2 ^ j"
      using e by (simp add: ulp_def j_def power_int_def power_int_diff field_simps)
    then have "?v / ulp ?v = of_int (int n * 2 ^ j)" by simp
    then have "round_even (?v / ulp ?v) = int n * 2 ^ j" by (simp only: round_even_of_int)
    then show ?thesis by (simp add: fl_pos_eq [OF pos] u)
  qed
qed

lemma centred_inside64_unit:
  assumes "1 / 2 ^ 54 < s" "s \<le> 1 / 4"
  shows "Math_round (js_div (js_sub 1 s) 2) = 0"
proof -
  from assms have room: "0 < 1 - s" by simp
  then have f: "0 < fl (1 - s)" by (rule fl_pos)
  from assms have "1 / 2 \<le> 1 - s" "1 - s < 1" by simp_all
  then have "ulp (1 - s) = 1 / 2 ^ 53" by (rule ulp_below_one)
  with fl_error_ulp [OF room] have "\<bar>fl (1 - s) - (1 - s)\<bar> \<le> 1 / 2 ^ 54" by simp
  then have "fl (1 - s) \<le> 1 - s + 1 / 2 ^ 54" by linarith
  with assms have le: "fl (1 - s) < 1" by simp
  have d: "js_div (js_sub 1 s) 2 = fl (1 - s) / 2"
    by (simp add: js_div_def js_sub_def fl_half [OF f] fl_idem [OF room])
  from f le have "0 \<le> fl (1 - s) / 2 + 1 / 2" "fl (1 - s) / 2 + 1 / 2 < 1" by simp_all
  then have "\<lfloor>fl (1 - s) / 2 + 1 / 2\<rfloor> = 0" by (simp add: floor_eq_iff)
  then show ?thesis by (simp add: d Math_round_def)
qed

text \<open>On a canvas of width 1, what the clamps leave of a logo of at most \<open>2 ^ 51\<close> each way.\<close>

lemma clamps64_unit_lower:
  assumes "1 \<le> lw" "lw \<le> 2 ^ 51" "1 \<le> lh" "lh \<le> 2 ^ 51"
  defines "wh \<equiv> clamp_height64 lw lh (js_div 1 5) (clamp_width64 lw lh (js_div 1 5))"
  shows "1 / 2 ^ 54 < fst wh" "1 / 2 ^ 54 < snd wh"
proof -
  let ?m = "3602879701896397 / 18014398509481984 :: rat"
  have m: "js_div 1 5 = ?m" by (simp add: fl_eval)
  have dbl: "fl ?m = ?m" using fifth_le_quarter(2) [of 1] by (simp add: fl_one m)
  from assms have pos: "0 < lw" "0 < lh" by simp_all
  have scaled: "1 / 2 ^ 54 < fl (fl (a / b) * ?m)" if "1 \<le> a" "b \<le> 2 ^ 51" "0 < b" for a b :: rat
  proof -
    from that have q: "0 < a / b" by simp
    from that have "b \<le> 2 ^ 51 * a" by simp
    with that have lo: "1 / 2 ^ 51 \<le> a / b" by (simp add: pos_le_divide_eq)
    have "1 / 2 ^ 54 < 1 / 2 ^ 51 * (?m * (1 - 1 / 2 ^ 53)\<^sup>2)" by (simp add: power2_eq_square)
    also from lo have "\<dots> \<le> a / b * (?m * (1 - 1 / 2 ^ 53)\<^sup>2)"
      by (intro mult_right_mono) simp_all
    also have "\<dots> = a / b * ?m * (1 - 1 / 2 ^ 53)\<^sup>2" by simp
    also have "\<dots> \<le> fl (fl (a / b) * ?m)" by (rule two_roundings(1) [OF q]) simp
    finally show ?thesis .
  qed
  have "0 < ?m" by simp
  from pos this dbl have "1 / 2 ^ 54 < fst wh \<and> 1 / 2 ^ 54 < snd wh"
  proof (cases rule: clamps64_cases)
    case none
    with assms show ?thesis by simp
  next
    case width
    with scaled [of lh lw] assms pos show ?thesis by (simp add: wh_def m)
  next
    case height
    with scaled [of lw lh] assms pos show ?thesis by (simp add: wh_def m)
  qed
  then show "1 / 2 ^ 54 < fst wh" "1 / 2 ^ 54 < snd wh" by simp_all
qed

text \<open>
  C1. The claim's two products are not the code's. For a logo of 300 by 100 on a canvas
  of width 400 the code computes the height \<open>(100 / 300) * 80\<close>, which is
  26.666666666666664, and the claim's \<open>100 * (80 / 300)\<close> is 26.666666666666668.
\<close>

theorem product_order_counterexample:
  "logoHeightFinal (logo_geometry64 300 100 400) = 3752999689475413 / 140737488355328 \<and>
   logoHeightFinal (spec_composite_geometry64 300 100 400) = 7505999378950827 / 281474976710656 \<and>
   logo_geometry64 300 100 400 \<noteq> spec_composite_geometry64 300 100 400"
proof -
  have a0: "js_div 400 5 = 80" by (simp add: fl_eval)
  have a1: "js_div 100 300 = 6004799503160661 / 18014398509481984" by (simp add: fl_eval)
  have a2: "js_mul (6004799503160661 / 18014398509481984) 80 = 3752999689475413 / 140737488355328" by (simp add: fl_eval)
  have a3: "js_sub 400 80 = 320" by (simp add: fl_eval)
  have a4: "js_div 320 2 = 160" by (simp add: fl_eval)
  have a5: "js_sub 400 (3752999689475413 / 140737488355328) = 6567749456581973 / 17592186044416" by (simp add: fl_eval)
  have a6: "js_div (6567749456581973 / 17592186044416) 2 = 6567749456581973 / 35184372088832" by (simp add: fl_eval)
  have a: "logo_geometry64 300 100 400 =
      \<lparr> draw_x = 160, draw_y = 187, logoWidthFinal = 80, logoHeightFinal = 3752999689475413 / 140737488355328 \<rparr>"
    by (simp add: logo_geometry64_def clamp_width64_def clamp_height64_def Math_round_def Let_def floor_numeral_div
        a0 a1 a2 a3 a4 a5 a6)
  have b0: "js_div 400 5 = 80" by (simp add: fl_eval)
  have b1: "js_div 80 300 = 4803839602528529 / 18014398509481984" by (simp add: fl_eval)
  have b2: "js_mul 100 (4803839602528529 / 18014398509481984) = 7505999378950827 / 281474976710656" by (simp add: fl_eval)
  have b3: "js_sub 400 80 = 320" by (simp add: fl_eval)
  have b4: "js_div 320 2 = 160" by (simp add: fl_eval)
  have b5: "js_sub 400 (7505999378950827 / 281474976710656) = 6567749456581973 / 17592186044416" by (simp add: fl_eval)
  have b6: "js_div (6567749456581973 / 17592186044416) 2 = 6567749456581973 / 35184372088832" by (simp add: fl_eval)
  have b: "spec_composite_geometry64 300 100 400 =
      \<lparr> draw_x = 160, draw_y = 187, logoWidthFinal = 80, logoHeightFinal = 7505999378950827 / 281474976710656 \<rparr>"
    by (simp add: spec_composite_geometry64_def round_def Let_def floor_numeral_div
        b0 b1 b2 b3 b4 b5 b6)
  from a b show ?thesis by simp
qed

text \<open>
  C1, as the code has it. The scaling is two clamps, one after the other, with the
  products in the code's order: step 3 sets \<open>scaledH = (lh / lw) * maxW\<close>, and step 4, on
  the height that step 3 left, sets \<open>scaledW = (lw / lh) * maxH\<close> from the natural
  dimensions. A logo of 200 by 200 on a canvas of width 400 is drawn 80 by 80 at
  (160, 160). That the width of step 4 is not taken from the result of step 3 shows on a
  logo of 81 by 83: the code's width is 78.07228915662651, the other is 78.0722891566265.
\<close>

theorem logo_scaling_two_sequential_clamps64:
  assumes "0 < lw" "0 < lh" "0 < width"
  shows "logo_geometry64 lw lh width = ordered_composite_geometry64 lw lh width \<and>
         logo_geometry64 200 200 400 =
           \<lparr> draw_x = 160, draw_y = 160, logoWidthFinal = 80, logoHeightFinal = 80 \<rparr> \<and>
         logoWidthFinal (logo_geometry64 81 83 400) = 2746924471513631 / 35184372088832 \<and>
         logoWidthFinal (step3_composite_geometry64 81 83 400) =
           5493848943027261 / 70368744177664 \<and>
         logo_geometry64 81 83 400 \<noteq> step3_composite_geometry64 81 83 400"
proof -
  have same: "logo_geometry64 lw lh width = ordered_composite_geometry64 lw lh width"
    by (simp add: logo_geometry64_def ordered_composite_geometry64_def clamp_width64_def
        clamp_height64_def Math_round_eq_round Let_def)
  have c0: "js_div 400 5 = 80" by (simp add: fl_eval)
  have c1: "js_div 200 200 = 1" by (simp add: fl_eval)
  have c2: "js_mul 1 80 = 80" by (simp add: fl_eval)
  have c3: "js_sub 400 80 = 320" by (simp add: fl_eval)
  have c4: "js_div 320 2 = 160" by (simp add: fl_eval)
  have c: "logo_geometry64 200 200 400 =
      \<lparr> draw_x = 160, draw_y = 160, logoWidthFinal = 80, logoHeightFinal = 80 \<rparr>"
    by (simp add: logo_geometry64_def clamp_width64_def clamp_height64_def Math_round_def Let_def floor_numeral_div
        c0 c1 c2 c3 c4)
  have d0: "js_div 400 5 = 80" by (simp add: fl_eval)
  have d1: "js_div 83 81 = 576849952271221 / 562949953421312" by (simp add: fl_eval)
  have d2: "js_mul (576849952271221 / 562949953421312) 80 = 2884249761356105 / 35184372088832" by (simp add: fl_eval)
  have d3: "js_div 81 83 = 8790158308843619 / 9007199254740992" by (simp add: fl_eval)
  have d4: "js_mul (8790158308843619 / 9007199254740992) 80 = 2746924471513631 / 35184372088832" by (simp add: fl_eval)
  have d5: "js_sub 400 (2746924471513631 / 35184372088832) = 353963261375599 / 1099511627776" by (simp add: fl_eval)
  have d6: "js_div (353963261375599 / 1099511627776) 2 = 353963261375599 / 2199023255552" by (simp add: fl_eval)
  have d7: "js_sub 400 80 = 320" by (simp add: fl_eval)
  have d8: "js_div 320 2 = 160" by (simp add: fl_eval)
  have d: "logo_geometry64 81 83 400 =
      \<lparr> draw_x = 161, draw_y = 160, logoWidthFinal = 2746924471513631 / 35184372088832, logoHeightFinal = 80 \<rparr>"
    by (simp add: logo_geometry64_def clamp_width64_def clamp_height64_def Math_round_def Let_def floor_numeral_div
        d0 d1 d2 d3 d4 d5 d6 d7 d8)
  have e0: "js_div 400 5 = 80" by (simp add: fl_eval)
  have e1: "js_div 83 81 = 576849952271221 / 562949953421312" by (simp add: fl_eval)
  have e2: "js_mul (576849952271221 / 562949953421312) 80 = 2884249761356105 / 35184372088832" by (simp add: fl_eval)
  have e3: "js_div 80 (2884249761356105 / 35184372088832) = 4395079154421809 / 4503599627370496" by (simp add: fl_eval)
  have e4: "js_mul (4395079154421809 / 4503599627370496) 80 = 5493848943027261 / 70368744177664" by (simp add: fl_eval)
  have e5: "js_sub 400 (5493848943027261 / 70368744177664) = 5663412182009585 / 17592186044416" by (simp add: fl_eval)
  have e6: "js_div (5663412182009585 / 17592186044416) 2 = 5663412182009585 / 35184372088832" by (simp add: fl_eval)
  have e7: "js_sub 400 80 = 320" by (simp add: fl_eval)
  have e8: "js_div 320 2 = 160" by (simp add: fl_eval)
  have e: "step3_composite_geometry64 81 83 400 =
      \<lparr> draw_x = 161, draw_y = 160, logoWidthFinal = 5493848943027261 / 70368744177664, logoHeightFinal = 80 \<rparr>"
    by (simp add: step3_composite_geometry64_def round_def Let_def floor_numeral_div
        e0 e1 e2 e3 e4 e5 e6 e7 e8)
  from same c d e show ?thesis by simp
qed

theorem logo_scaling_two_sequential_clamps64_witness:
  "(0 :: rat) < 200 \<and> (0 :: rat) < 400 \<and>
   logo_geometry64 200 200 400 = ordered_composite_geometry64 200 200 400 \<and>
   ordered_composite_geometry64 200 200 400 =
     \<lparr> draw_x = 160, draw_y = 160, logoWidthFinal = 80, logoHeightFinal = 80 \<rparr>"
proof -
  have p: "(0 :: rat) < 200" and q: "(0 :: rat) < 400" by simp_all
  from logo_scaling_two_sequential_clamps64 [OF p p q]
  have "logo_geometry64 200 200 400 = ordered_composite_geometry64 200 200 400"
    and "logo_geometry64 200 200 400 =
      \<lparr> draw_x = 160, draw_y = 160, logoWidthFinal = 80, logoHeightFinal = 80 \<rparr>"
    by blast+
  with p q show ?thesis by simp
qed

text \<open>
  C2. The aspect ratio is not kept exactly: for a logo of 300 by 100 on a canvas of
  width 400 the code draws 80 by 26.666666666666664, and 80 over that is not 3. And not
  every logo stays inside every canvas: on a canvas of width 1 a logo of 1 by \<open>2 ^ 52\<close>
  is scaled to a width of about \<open>4.4e-17\<close>, \<open>1 - 4.4e-17\<close> rounds to 1, and the logo is
  drawn at \<open>x = 1\<close>.
\<close>

theorem aspect_ratio_counterexample:
  "logoWidthFinal (logo_geometry64 300 100 400) = 80 \<and>
   logoHeightFinal (logo_geometry64 300 100 400) = 3752999689475413 / 140737488355328 \<and>
   logoWidthFinal (logo_geometry64 300 100 400) / logoHeightFinal (logo_geometry64 300 100 400)
     \<noteq> 300 / 100 \<and>
   draw_x (logo_geometry64 1 4503599627370496 1) = 1 \<and>
   0 < logoWidthFinal (logo_geometry64 1 4503599627370496 1) \<and>
   \<not> of_int (draw_x (logo_geometry64 1 4503599627370496 1))
       + logoWidthFinal (logo_geometry64 1 4503599627370496 1) \<le> 1"
proof -
  have a0: "js_div 400 5 = 80" by (simp add: fl_eval)
  have a1: "js_div 100 300 = 6004799503160661 / 18014398509481984" by (simp add: fl_eval)
  have a2: "js_mul (6004799503160661 / 18014398509481984) 80 = 3752999689475413 / 140737488355328" by (simp add: fl_eval)
  have a3: "js_sub 400 80 = 320" by (simp add: fl_eval)
  have a4: "js_div 320 2 = 160" by (simp add: fl_eval)
  have a5: "js_sub 400 (3752999689475413 / 140737488355328) = 6567749456581973 / 17592186044416" by (simp add: fl_eval)
  have a6: "js_div (6567749456581973 / 17592186044416) 2 = 6567749456581973 / 35184372088832" by (simp add: fl_eval)
  have a: "logo_geometry64 300 100 400 =
      \<lparr> draw_x = 160, draw_y = 187, logoWidthFinal = 80, logoHeightFinal = 3752999689475413 / 140737488355328 \<rparr>"
    by (simp add: logo_geometry64_def clamp_width64_def clamp_height64_def Math_round_def Let_def floor_numeral_div
        a0 a1 a2 a3 a4 a5 a6)
  have u0: "js_div 1 5 = 3602879701896397 / 18014398509481984" by (simp add: fl_eval)
  have u1: "js_div 4503599627370496 1 = 4503599627370496" by (simp add: fl_eval)
  have u2: "js_mul 4503599627370496 (3602879701896397 / 18014398509481984) = 3602879701896397 / 4" by (simp add: fl_eval)
  have u3: "js_div 1 4503599627370496 = 1 / 4503599627370496" by (simp add: fl_eval)
  have u4: "js_mul (1 / 4503599627370496) (3602879701896397 / 18014398509481984) = 3602879701896397 / 81129638414606681695789005144064" by (simp add: fl_eval)
  have u5: "js_sub 1 (3602879701896397 / 81129638414606681695789005144064) = 1" by (simp add: fl_eval)
  have u6: "js_div 1 2 = 1 / 2" by (simp add: fl_eval)
  have u7: "js_sub 1 (3602879701896397 / 18014398509481984) = 3602879701896397 / 4503599627370496" by (simp add: fl_eval)
  have u8: "js_div (3602879701896397 / 4503599627370496) 2 = 3602879701896397 / 9007199254740992" by (simp add: fl_eval)
  have u: "logo_geometry64 1 4503599627370496 1 =
      \<lparr> draw_x = 1, draw_y = 0, logoWidthFinal = 3602879701896397 / 81129638414606681695789005144064, logoHeightFinal = 3602879701896397 / 18014398509481984 \<rparr>"
    by (simp add: logo_geometry64_def clamp_width64_def clamp_height64_def Math_round_def Let_def floor_numeral_div
        u0 u1 u2 u3 u4 u5 u6 u7 u8)
  from a u show ?thesis by simp
qed

text \<open>
  C2, as the code has it. For a logo whose natural dimensions are positive and at most
  \<open>2 ^ 51\<close>, and a canvas whose width is a positive whole number up to \<open>2 ^ 53\<close>, the logo
  lies inside the canvas, each scaled side is at most the \<open>width / 5\<close> that the code
  computes, and the aspect ratio is kept up to the rounding of the quotient and of the
  product: the relative error is at most \<open>2 ^ -51\<close>.
\<close>

theorem logo_placement_invariant64:
  fixes lw lh n :: nat
  assumes "0 < lw" "lw \<le> 2 ^ 51" "0 < lh" "lh \<le> 2 ^ 51" "0 < n" "n \<le> 2 ^ 53"
  defines "p \<equiv> logo_geometry64 (of_nat lw) (of_nat lh) (of_nat n)"
  shows "0 \<le> draw_x p \<and> 0 \<le> draw_y p \<and>
         of_int (draw_x p) + logoWidthFinal p \<le> of_nat n \<and>
         of_int (draw_y p) + logoHeightFinal p \<le> of_nat n \<and>
         0 < logoHeightFinal p \<and>
         \<bar>logoWidthFinal p / logoHeightFinal p - of_nat lw / of_nat lh\<bar>
           \<le> (of_nat lw / of_nat lh) / 2 ^ 51 \<and>
         logoWidthFinal p \<le> js_div (of_nat n) 5 \<and> logoHeightFinal p \<le> js_div (of_nat n) 5"
proof -
  let ?lw = "of_nat lw :: rat" and ?lh = "of_nat lh :: rat" and ?w = "of_nat n :: rat"
  let ?m = "js_div ?w 5"
  let ?wh = "clamp_height64 ?lw ?lh ?m (clamp_width64 ?lw ?lh ?m)"
  from \<open>0 < lw\<close> \<open>0 < lh\<close> \<open>0 < n\<close> have pos: "0 < ?lw" "0 < ?lh" "0 < ?w" by simp_all
  have dbl: "fl ?w = ?w" by (rule fl_of_nat [OF \<open>0 < n\<close> \<open>n \<le> 2 ^ 53\<close>])
  note m = fifth_le_quarter [OF pos(3) dbl]
  note bnd = clamps64_bounded [OF pos(1,2) m(1,2)]
  note ratio = clamps64_ratio [OF pos(1,2) m(1,2)]
  have px: "draw_x p = Math_round (js_div (js_sub ?w (fst ?wh)) 2)"
    and py: "draw_y p = Math_round (js_div (js_sub ?w (snd ?wh)) 2)"
    and pw: "logoWidthFinal p = fst ?wh" and ph: "logoHeightFinal p = snd ?wh"
    by (simp_all add: p_def logo_geometry64_def Let_def)
  have inside: "0 \<le> Math_round (js_div (js_sub ?w s) 2) \<and>
                of_int (Math_round (js_div (js_sub ?w s) 2)) + s \<le> ?w"
    if s: "s = fst ?wh \<or> s = snd ?wh" for s
  proof (cases "2 \<le> n")
    case True
    then have two: "2 \<le> ?w" by simp
    from s bnd m(3) have "0 < s" "s \<le> ?w / 4" by auto
    from centred_inside64 [OF this dbl two] show ?thesis by simp
  next
    case False
    with \<open>0 < n\<close> have n: "n = 1" by simp
    from \<open>0 < lw\<close> \<open>0 < lh\<close> have "1 \<le> ?lw" "1 \<le> ?lh" by simp_all
    moreover from \<open>lw \<le> 2 ^ 51\<close> \<open>lh \<le> 2 ^ 51\<close> have "?lw \<le> 2 ^ 51" "?lh \<le> 2 ^ 51"
      by (metis of_nat_le_iff of_nat_numeral of_nat_power)+
    ultimately have "1 \<le> ?lw" "?lw \<le> 2 ^ 51" "1 \<le> ?lh" "?lh \<le> 2 ^ 51" by -
    from clamps64_unit_lower [OF this] s have lo: "1 / 2 ^ 54 < s" by (auto simp: n)
    from s bnd m(3) have hi: "s \<le> 1 / 4" by (auto simp: n)
    from centred_inside64_unit [OF lo hi] hi show ?thesis by (simp add: n)
  qed
  from inside [of "fst ?wh"] inside [of "snd ?wh"] bnd ratio show ?thesis
    unfolding px py pw ph by simp
qed

theorem logo_placement_invariant64_witness:
  "(0 :: nat) < 300 \<and> (300 :: nat) \<le> 2 ^ 51 \<and> (0 :: nat) < 100 \<and> (100 :: nat) \<le> 2 ^ 51 \<and>
   (0 :: nat) < 400 \<and> (400 :: nat) \<le> 2 ^ 53 \<and>
   logo_geometry64 300 100 400 =
     \<lparr> draw_x = 160, draw_y = 187, logoWidthFinal = 80,
       logoHeightFinal = 3752999689475413 / 140737488355328 \<rparr> \<and>
   of_int (draw_y (logo_geometry64 300 100 400)) + logoHeightFinal (logo_geometry64 300 100 400)
     \<le> 400 \<and>
   \<bar>logoWidthFinal (logo_geometry64 300 100 400) / logoHeightFinal (logo_geometry64 300 100 400)
      - 300 / 100\<bar> \<le> (300 / 100) / 2 ^ 51"
proof -
  have h: "(0 :: nat) < 300" "(300 :: nat) \<le> 2 ^ 51" "(0 :: nat) < 100" "(100 :: nat) \<le> 2 ^ 51"
    "(0 :: nat) < 400" "(400 :: nat) \<le> 2 ^ 53"
    by simp_all
  have a0: "js_div 400 5 = 80" by (simp add: fl_eval)
  have a1: "js_div 100 300 = 6004799503160661 / 18014398509481984" by (simp add: fl_eval)
  have a2: "js_mul (6004799503160661 / 18014398509481984) 80 = 3752999689475413 / 140737488355328" by (simp add: fl_eval)
  have a3: "js_sub 400 80 = 320" by (simp add: fl_eval)
  have a4: "js_div 320 2 = 160" by (simp add: fl_eval)
  have a5: "js_sub 400 (3752999689475413 / 140737488355328) = 6567749456581973 / 17592186044416" by (simp add: fl_eval)
  have a6: "js_div (6567749456581973 / 17592186044416) 2 = 6567749456581973 / 35184372088832" by (simp add: fl_eval)
  have a: "logo_geometry64 300 100 400 =
      \<lparr> draw_x = 160, draw_y = 187, logoWidthFinal = 80, logoHeightFinal = 3752999689475413 / 140737488355328 \<rparr>"
    by (simp add: logo_geometry64_def clamp_width64_def clamp_height64_def Math_round_def Let_def floor_numeral_div
        a0 a1 a2 a3 a4 a5 a6)
  from logo_placement_invariant64 [OF h] a h show ?thesis by simp
qed


section \<open>Runs of the generation functions and of the handler\<close>

text \<open>
  Each generation function only adds to the trace, and what it returns and adds is fixed
  by the libraries' answers: one case for each call that can throw.
\<close>

lemmas eff_defs = ret_def throw_def and_then_def try_catch_def lib_call_def console_log_def
  console_error_def fs_existsSync_def fs_mkdirSync_def fs_writeFileSync_def Date_now_def
  res_status_def res_setHeader_def res_json_def res_send_def emit_def

lemma generateQRCodeWithoutLogo_cases [case_names encode_fail url_fail ok]:
  obtains
    (encode_fail) e where
      "QRCode_toCanvas L (createCanvas L width width) d qr_render_options = Inl e"
      "\<And>w. generateQRCodeWithoutLogo L d width w =
         (Inl e, w\<lparr>trace := trace w @
            [CreateCanvas width width, QRCodeToCanvas d qr_render_options]\<rparr>)"
  | (url_fail) c e where
      "QRCode_toCanvas L (createCanvas L width width) d qr_render_options = Inr c"
      "toDataURL L c ''image/png'' = Inl e"
      "\<And>w. generateQRCodeWithoutLogo L d width w =
         (Inl e, w\<lparr>trace := trace w @
            [CreateCanvas width width, QRCodeToCanvas d qr_render_options,
             ToDataURL ''image/png'']\<rparr>)"
  | (ok) c url where
      "QRCode_toCanvas L (createCanvas L width width) d qr_render_options = Inr c"
      "toDataURL L c ''image/png'' = Inr url"
      "\<And>w. generateQRCodeWithoutLogo L d width w =
         (Inr url, w\<lparr>trace := trace w @
            [CreateCanvas width width, QRCodeToCanvas d qr_render_options,
             ToDataURL ''image/png'']\<rparr>)"
proof (cases "QRCode_toCanvas L (createCanvas L width width) d qr_render_options")
  case (Inl e)
  then show ?thesis
    by (intro encode_fail [of e]) (simp_all add: generateQRCodeWithoutLogo_def eff_defs)
next
  case (Inr c)
  show ?thesis
  proof (cases "toDataURL L c ''image/png''")
    case (Inl e)
    with Inr show ?thesis
      by (intro url_fail [of c e]) (simp_all add: generateQRCodeWithoutLogo_def eff_defs)
  next
    case (Inr url)
    with \<open>QRCode_toCanvas L (createCanvas L width width) d qr_render_options = Inr c\<close>
    show ?thesis
      by (intro ok [of c url]) (simp_all add: generateQRCodeWithoutLogo_def eff_defs)
  qed
qed

lemma generateQRCodeWithLogo_cases [case_names encode_fail load_fail draw_fail url_fail ok]:
  obtains
    (encode_fail) e where
      "QRCode_toCanvas L (createCanvas L width width) d qr_render_options = Inl e"
      "\<And>w. generateQRCodeWithLogo L d p width w =
         (Inl e, w\<lparr>trace := trace w @
            [CreateCanvas width width, QRCodeToCanvas d qr_render_options,
             ConsoleError ''Error generating QR code:'' e]\<rparr>)"
  | (load_fail) c e where
      "QRCode_toCanvas L (createCanvas L width width) d qr_render_options = Inr c"
      "loadImage L p = Inl e"
      "\<And>w. generateQRCodeWithLogo L d p width w =
         (Inl e, w\<lparr>trace := trace w @
            [CreateCanvas width width, QRCodeToCanvas d qr_render_options, LoadImage p,
             ConsoleError ''Error generating QR code:'' e]\<rparr>)"
  | (draw_fail) c img g e where
      "QRCode_toCanvas L (createCanvas L width width) d qr_render_options = Inr c"
      "loadImage L p = Inr img"
      "g = logo_geometry (img_width L img) (img_height L img) width"
      "drawImage L c img (draw_x g) (draw_y g) (logoWidthFinal g) (logoHeightFinal g) = Inl e"
      "\<And>w. generateQRCodeWithLogo L d p width w =
         (Inl e, w\<lparr>trace := trace w @
            [CreateCanvas width width, QRCodeToCanvas d qr_render_options, LoadImage p,
             DrawImage (draw_x g) (draw_y g) (logoWidthFinal g) (logoHeightFinal g),
             ConsoleError ''Error generating QR code:'' e]\<rparr>)"
  | (url_fail) c img g c' e where
      "QRCode_toCanvas L (createCanvas L width width) d qr_render_options = Inr c"
      "loadImage L p = Inr img"
      "g = logo_geometry (img_width L img) (img_height L img) width"
      "drawImage L c img (draw_x g) (draw_y g) (logoWidthFinal g) (logoHeightFinal g) = Inr c'"
      "toDataURL L c' ''image/png'' = Inl e"
      "\<And>w. generateQRCodeWithLogo L d p width w =
         (Inl e, w\<lparr>trace := trace w @
            [CreateCanvas width width, QRCodeToCanvas d qr_render_options, LoadImage p,
             DrawImage (draw_x g) (draw_y g) (logoWidthFinal g) (logoHeightFinal g),
             ToDataURL ''image/png'',
             ConsoleError ''Error generating QR code:'' e]\<rparr>)"
  | (ok) c img g c' url where
      "QRCode_toCanvas L (createCanvas L width width) d qr_render_options = Inr c"
      "loadImage L p = Inr img"
      "g = logo_geometry (img_width L img) (img_height L img) width"
      "drawImage L c img (draw_x g) (draw_y g) (logoWidthFinal g) (logoHeightFinal g) = Inr c'"
      "toDataURL L c' ''image/png'' = Inr url"
      "\<And>w. generateQRCodeWithLogo L d p width w =
         (Inr url, w\<lparr>trace := trace w @
            [CreateCanvas width width, QRCodeToCanvas d qr_render_options, LoadImage p,
             DrawImage (draw_x g) (draw_y g) (logoWidthFinal g) (logoHeightFinal g),
             ToDataURL ''image/png'']\<rparr>)"
proof (cases "QRCode_toCanvas L (createCanvas L width width) d qr_render_options")
  case (Inl e)
  then show ?thesis
    by (intro encode_fail [of e]) (simp_all add: generateQRCodeWithLogo_def eff_defs)
next
  case c: (Inr c)
  show ?thesis
  proof (cases "loadImage L p")
    case (Inl e)
    with c show ?thesis
      by (intro load_fail [of c e]) (simp_all add: generateQRCodeWithLogo_def eff_defs)
  next
    case img: (Inr img)
    define g where "g = logo_geometry (img_width L img) (img_height L img) width"
    show ?thesis
    proof (cases "drawImage L c img (draw_x g) (draw_y g) (logoWidthFinal g) (logoHeightFinal g)")
      case (Inl e)
      with c img show ?thesis
        by (intro draw_fail [of c img g e])
           (simp_all add: generateQRCodeWithLogo_def eff_defs Let_def g_def)
    next
      case c': (Inr c')
      show ?thesis
      proof (cases "toDataURL L c' ''image/png''")
        case (Inl e)
        with c img c' show ?thesis
          by (intro url_fail [of c img g c' e])
             (simp_all add: generateQRCodeWithLogo_def eff_defs Let_def g_def)
      next
        case (Inr url)
        with c img c' show ?thesis
          by (intro ok [of c img g c' url])
             (simp_all add: generateQRCodeWithLogo_def eff_defs Let_def g_def)
      qed
    qed
  qed
qed


lemma save_and_send_run:
  fixes L :: "('c, 'i) libs" and url :: string and w :: world
  defines "buf \<equiv> Buffer_from_base64 L (strip_data_url url)"
  defines "dir \<equiv> path_join (dirname w) ''output''"
  defines "file \<equiv> path_join dir (''qr-code-'' @ show_nat (clock w) @ ''.png'')"
  defines "made \<equiv> (if fs w dir = None then [MkdirSync dir] else [])"
  defines "fs1 \<equiv> (if fs w dir = None then (fs w)(dir \<mapsto> Dir) else fs w)"
  shows "save_and_send L url w =
    (if fs w dir = None \<and> mkdir_throws w dir
     then (Inl (JsError ''mkdir''), w\<lparr>trace := trace w @ [ExistsSync dir, MkdirSync dir]\<rparr>)
     else if write_throws w file
     then (Inl (JsError ''write''),
           w\<lparr>fs := fs1, trace := trace w @ ExistsSync dir # made @ [WriteFileSync file buf]\<rparr>)
     else (Inr (),
           w\<lparr>fs := fs1(file \<mapsto> File buf),
              res := (res w)\<lparr>headers :=
                        (''Content-Disposition'', ''inline; filename=qr-code.png'') #
                        filter (\<lambda>kv. fst kv \<noteq> ''Content-Disposition'')
                          ((''Content-Type'', ''image/png'') #
                           filter (\<lambda>kv. fst kv \<noteq> ''Content-Type'') (headers (res w))),
                      body := Some (RawBody buf)\<rparr>,
              trace := trace w @ ExistsSync dir # made @
                [WriteFileSync file buf, ConsoleLog (''QR code saved to: '' @ file),
                 ResSetHeader ''Content-Type'' ''image/png'',
                 ResSetHeader ''Content-Disposition'' ''inline; filename=qr-code.png'',
                 ResSend buf]\<rparr>))"
  unfolding buf_def dir_def file_def made_def fs1_def
  by (simp add: save_and_send_def eff_defs Let_def)

text \<open>The handler, once the generation step has thrown or has returned a data URL.\<close>

lemma handler_gen_fail:
  assumes "req_body ''data'' = Some d" "truthy d"
    and "(if truthy (case req_body ''enableLogo'' of None \<Rightarrow> JBool True | Some v \<Rightarrow> v)
          then generateQRCodeWithLogo L d ''./src/images/logo1.jpg'' 400
          else generateQRCodeWithoutLogo L d 400) w = (Inl e, w1)"
  shows "generate_qr_try L req_body w = (Inl e, w1)"
    and "generate_qr L req_body w =
     w1\<lparr>res := (res w1)\<lparr>statusCode := 500, body := Some (JsonBody failed_json)\<rparr>,
       trace := trace w1 @
         [ConsoleError ''Error in /generate-qr:'' e, ResStatus 500, ResJson failed_json]\<rparr>"
  using assms
  by (simp_all add: generate_qr_def generate_qr_try_def try_catch_def and_then_def
      console_error_def res_status_def res_json_def emit_def)

lemma handler_gen_ok:
  assumes "req_body ''data'' = Some d" "truthy d"
    and "(if truthy (case req_body ''enableLogo'' of None \<Rightarrow> JBool True | Some v \<Rightarrow> v)
          then generateQRCodeWithLogo L d ''./src/images/logo1.jpg'' 400
          else generateQRCodeWithoutLogo L d 400) w = (Inr url, w1)"
  shows "generate_qr_try L req_body w = save_and_send L url w1"
    and "generate_qr L req_body w =
     (case save_and_send L url w1 of
        (Inl e, w2) \<Rightarrow>
          w2\<lparr>res := (res w2)\<lparr>statusCode := 500, body := Some (JsonBody failed_json)\<rparr>,
            trace := trace w2 @
              [ConsoleError ''Error in /generate-qr:'' e, ResStatus 500, ResJson failed_json]\<rparr>
      | (Inr u, w2) \<Rightarrow> w2)"
  using assms
  by (simp_all add: generate_qr_def generate_qr_try_def try_catch_def and_then_def
      console_error_def res_status_def res_json_def emit_def split: prod.splits sum.splits)

text \<open>The generation step of the handler, whichever of the two functions it calls.\<close>

lemma generation_summary:
  fixes L :: "('c, 'i) libs" and req_body :: "string \<rightharpoonup> json" and d :: json
  defines "logo_on \<equiv> truthy (case req_body ''enableLogo'' of None \<Rightarrow> JBool True | Some v \<Rightarrow> v)"
  obtains r evs where
    "\<And>w. (if logo_on then generateQRCodeWithLogo L d ''./src/images/logo1.jpg'' 400
           else generateQRCodeWithoutLogo L d 400) w = (r, w\<lparr>trace := trace w @ evs\<rparr>)"
    "filter is_render evs = [CreateCanvas 400 400, QRCodeToCanvas d qr_render_options]"
    "length (filter is_load evs) \<le> 1"
    "filter is_write evs = []"
    "filter is_send evs = []"
    "\<And>e. QRCode_toCanvas L (createCanvas L 400 400) d qr_render_options = Inl e \<Longrightarrow> r = Inl e"
    "\<And>e. logo_on \<Longrightarrow> loadImage L ''./src/images/logo1.jpg'' = Inl e \<Longrightarrow> \<exists>e'. r = Inl e'"
proof (cases logo_on)
  case True
  show ?thesis
  proof (cases rule: generateQRCodeWithLogo_cases [of L 400 d "''./src/images/logo1.jpg''"])
    case (encode_fail e)
    with True show ?thesis
      by (intro that [of "Inl e"
            "[CreateCanvas 400 400, QRCodeToCanvas d qr_render_options, ConsoleError ''Error generating QR code:'' e]"])
         simp_all
  next
    case (load_fail c e)
    with True show ?thesis
      by (intro that [of "Inl e"
            "[CreateCanvas 400 400, QRCodeToCanvas d qr_render_options, LoadImage ''./src/images/logo1.jpg'', ConsoleError ''Error generating QR code:'' e]"])
         simp_all
  next
    case (draw_fail c img g e)
    with True show ?thesis
      by (intro that [of "Inl e"
            "[CreateCanvas 400 400, QRCodeToCanvas d qr_render_options, LoadImage ''./src/images/logo1.jpg'', DrawImage (draw_x g) (draw_y g) (logoWidthFinal g) (logoHeightFinal g), ConsoleError ''Error generating QR code:'' e]"])
         simp_all
  next
    case (url_fail c img g c' e)
    with True show ?thesis
      by (intro that [of "Inl e"
            "[CreateCanvas 400 400, QRCodeToCanvas d qr_render_options, LoadImage ''./src/images/logo1.jpg'', DrawImage (draw_x g) (draw_y g) (logoWidthFinal g) (logoHeightFinal g), ToDataURL ''image/png'', ConsoleError ''Error generating QR code:'' e]"])
         simp_all
  next
    case (ok c img g c' url)
    with True show ?thesis
      by (intro that [of "Inr url"
            "[CreateCanvas 400 400, QRCodeToCanvas d qr_render_options, LoadImage ''./src/images/logo1.jpg'', DrawImage (draw_x g) (draw_y g) (logoWidthFinal g) (logoHeightFinal g), ToDataURL ''image/png'']"])
         simp_all
  qed
next
  case False
  show ?thesis
  proof (cases rule: generateQRCodeWithoutLogo_cases [of L 400 d])
    case (encode_fail e)
    with False show ?thesis
      by (intro that [of "Inl e"
            "[CreateCanvas 400 400, QRCodeToCanvas d qr_render_options]"])
         simp_all
  next
    case (url_fail c e)
    with False show ?thesis
      by (intro that [of "Inl e"
            "[CreateCanvas 400 400, QRCodeToCanvas d qr_render_options, ToDataURL ''image/png'']"])
         simp_all
  next
    case (ok c url)
    with False show ?thesis
      by (intro that [of "Inr url"
            "[CreateCanvas 400 400, QRCodeToCanvas d qr_render_options, ToDataURL ''image/png'']"])
         simp_all
  qed
qed

lemma no_send_in: "filter is_send evs = [] \<Longrightarrow> ResSend b \<notin> set evs"
  by (auto simp: filter_empty_conv)

text \<open>What the handler adds to the trace after the generation step.\<close>

lemma handler_events:
  fixes L :: "('c, 'i) libs" and req_body :: "string \<rightharpoonup> json" and w :: world
  assumes data: "req_body ''data'' = Some d" and tr: "truthy d"
    and gen: "(if truthy (case req_body ''enableLogo'' of None \<Rightarrow> JBool True | Some v \<Rightarrow> v)
          then generateQRCodeWithLogo L d ''./src/images/logo1.jpg'' 400
          else generateQRCodeWithoutLogo L d 400) w = (r, w\<lparr>trace := trace w @ evs0\<rparr>)"
  obtains rest where "new_events L req_body w = evs0 @ rest"
    "filter is_render rest = []"
    "\<And>b. ResSend b \<in> set rest \<Longrightarrow>
       \<exists>url. r = Inr url \<and> b = Buffer_from_base64 L (strip_data_url url)"
proof (cases r)
  case (Inl e)
  note run = handler_gen_fail [OF data tr gen [unfolded Inl]]
  show ?thesis
    by (rule that [of "[ConsoleError ''Error in /generate-qr:'' e, ResStatus 500,
          ResJson failed_json]"])
       (simp_all add: new_events_def run)
next
  case (Inr url)
  note run = handler_gen_ok [OF data tr gen [unfolded Inr]]
  show ?thesis
    by (rule that [of "drop (length (trace w) + length evs0) (trace (generate_qr L req_body w))"])
       (auto simp: new_events_def run save_and_send_run Inr split: if_splits)
qed

lemma path_join_longer: "b \<noteq> [] \<Longrightarrow> path_join a b \<noteq> a"
  by (simp add: path_join_def)

section \<open>Properties of the handler\<close>

text \<open>Unfolding the model on a concrete request.\<close>

lemmas demo_eval = new_events_def generate_qr_def generate_qr_try_def
  generateQRCodeWithoutLogo_def generateQRCodeWithLogo_def save_and_send_def eff_defs
  demo_world_def demo_libs_def demo_libs_no_logo_def qr_render_options_def Let_def
  strip_data_url_def path_join_def show_nat.simps digit_char_def logo_geometry_def
  clamp_width_def clamp_height_def Math_round_def failed_json_def missing_data_json_def
  floor_numeral_div

text \<open>
  C4. A request body without a \<open>data\<close> field is answered with status 400 and the body
  \<open>{"error":"Missing required field: data"}\<close>; the run consists of these two calls on the
  response, so nothing is rendered, composited or written, and the file system is as it was.
\<close>

theorem missing_data_rejected:
  assumes "req_body ''data'' = None"
  shows "statusCode (res (generate_qr L req_body w)) = 400 \<and>
         body (res (generate_qr L req_body w)) =
           Some (JsonBody (JObject [(''error'', JString ''Missing required field: data'')])) \<and>
         new_events L req_body w =
           [ResStatus 400,
            ResJson (JObject [(''error'', JString ''Missing required field: data'')])] \<and>
         fs (generate_qr L req_body w) = fs w"
  using assms
  by (simp add: generate_qr_def generate_qr_try_def new_events_def eff_defs
      missing_data_json_def)

theorem missing_data_rejected_witness:
  "(Map.empty :: string \<rightharpoonup> json) ''data'' = None \<and>
   statusCode (res (generate_qr demo_libs Map.empty demo_world)) = 400 \<and>
   body (res (generate_qr demo_libs Map.empty demo_world)) =
     Some (JsonBody (JObject [(''error'', JString ''Missing required field: data'')])) \<and>
   new_events demo_libs Map.empty demo_world =
     [ResStatus 400, ResJson (JObject [(''error'', JString ''Missing required field: data'')])]"
proof -
  have h: "(Map.empty :: string \<rightharpoonup> json) ''data'' = None" by simp
  from missing_data_rejected [where req_body = Map.empty and L = demo_libs and w = demo_world, OF h] h
  show ?thesis by simp
qed

text \<open>
  C9. A \<open>data\<close> field that is present and falsy (the empty string, zero, \<open>false\<close>, and
  \<open>null\<close> are the JSON values that are) is answered like a missing one: status 400, the
  missing-field body, and no call of the encoder.
\<close>

theorem falsy_data_rejected:
  assumes "req_body ''data'' = Some d" and "\<not> truthy d"
  shows "statusCode (res (generate_qr L req_body w)) = 400 \<and>
         body (res (generate_qr L req_body w)) =
           Some (JsonBody (JObject [(''error'', JString ''Missing required field: data'')])) \<and>
         new_events L req_body w =
           [ResStatus 400,
            ResJson (JObject [(''error'', JString ''Missing required field: data'')])] \<and>
         fs (generate_qr L req_body w) = fs w \<and>
         d \<in> {JString [], JNumber 0, JBool False, JNull}"
proof -
  from \<open>\<not> truthy d\<close> have "d \<in> {JString [], JNumber 0, JBool False, JNull}"
    by (cases d) simp_all
  with assms show ?thesis
    by (simp add: generate_qr_def generate_qr_try_def new_events_def eff_defs
        missing_data_json_def)
qed

theorem falsy_data_rejected_witness:
  "[''data'' \<mapsto> JString []] ''data'' = Some (JString []) \<and> \<not> truthy (JString []) \<and>
   statusCode (res (generate_qr demo_libs [''data'' \<mapsto> JString []] demo_world)) = 400 \<and>
   new_events demo_libs [''data'' \<mapsto> JString []] demo_world =
     [ResStatus 400, ResJson (JObject [(''error'', JString ''Missing required field: data'')])] \<and>
   [''data'' \<mapsto> JNumber 0] ''data'' = Some (JNumber 0) \<and> \<not> truthy (JNumber 0) \<and>
   new_events demo_libs [''data'' \<mapsto> JNumber 0] demo_world =
     [ResStatus 400, ResJson (JObject [(''error'', JString ''Missing required field: data'')])]"
proof -
  have h1: "[''data'' \<mapsto> JString []] ''data'' = Some (JString [])"
    and h2: "\<not> truthy (JString [])"
    and h3: "[''data'' \<mapsto> JNumber 0] ''data'' = Some (JNumber 0)"
    and h4: "\<not> truthy (JNumber 0)"
    by simp_all
  from falsy_data_rejected [where L = demo_libs and w = demo_world
      and req_body = "[''data'' \<mapsto> JString []]" and d = "JString []", OF h1 h2]
    falsy_data_rejected [where L = demo_libs and w = demo_world
      and req_body = "[''data'' \<mapsto> JNumber 0]" and d = "JNumber 0", OF h3 h4] h1 h2 h3 h4
  show ?thesis by simp
qed

text \<open>
  C5. For a request whose \<open>data\<close> is truthy, any throw inside the \<open>try\<close> ends in
  status 500 with the body \<open>{"error":"Failed to generate QR code"}\<close> and no image sent:
  so does a throw of the encoder, a logo that does not load (when the logo is on), and a
  write that throws. The encoder is called once, the logo loaded at most once, the file
  written at most once: nothing is tried again, and a failed logo is not followed by a
  second rendering without it.
\<close>

theorem internal_failures_collapse_to_500:
  fixes L :: "('c, 'i) libs" and req_body :: "string \<rightharpoonup> json" and w :: world
  assumes data: "req_body ''data'' = Some d" and tr: "truthy d"
  defines "w' \<equiv> generate_qr L req_body w"
    and "evs \<equiv> new_events L req_body w"
    and "logo_on \<equiv> truthy (case req_body ''enableLogo'' of None \<Rightarrow> JBool True | Some v \<Rightarrow> v)"
    and "file \<equiv> path_join (path_join (dirname w) ''output'')
                  (''qr-code-'' @ show_nat (clock w) @ ''.png'')"
  defines "failed \<equiv> statusCode (res w') = 500 \<and>
       body (res w') = Some (JsonBody (JObject [(''error'', JString ''Failed to generate QR code'')])) \<and>
       filter is_send evs = []"
  shows "(\<forall>e. fst (generate_qr_try L req_body w) = Inl e \<longrightarrow> failed) \<and>
         (\<forall>e. QRCode_toCanvas L (createCanvas L 400 400) d qr_render_options = Inl e \<longrightarrow> failed) \<and>
         (\<forall>e. logo_on \<and> loadImage L ''./src/images/logo1.jpg'' = Inl e \<longrightarrow> failed) \<and>
         (write_throws w file \<longrightarrow> failed) \<and>
         length (filter is_encode evs) = 1 \<and> length (filter is_load evs) \<le> 1 \<and>
         length (filter is_write evs) \<le> 1"
proof -
  obtain r evs0 where
    gen: "\<And>w. (if logo_on then generateQRCodeWithLogo L d ''./src/images/logo1.jpg'' 400
           else generateQRCodeWithoutLogo L d 400) w = (r, w\<lparr>trace := trace w @ evs0\<rparr>)"
    and render: "filter is_render evs0 = [CreateCanvas 400 400, QRCodeToCanvas d qr_render_options]"
    and load: "length (filter is_load evs0) \<le> 1"
    and nowrite: "filter is_write evs0 = []"
    and nosend: "filter is_send evs0 = []"
    and enc: "\<And>e. QRCode_toCanvas L (createCanvas L 400 400) d qr_render_options = Inl e \<Longrightarrow> r = Inl e"
    and img: "\<And>e. logo_on \<Longrightarrow> loadImage L ''./src/images/logo1.jpg'' = Inl e \<Longrightarrow> \<exists>e'. r = Inl e'"
    unfolding logo_on_def by (rule generation_summary [of req_body L d]) blast
  have encode1: "length (filter is_encode evs0) = 1"
  proof -
    have "filter is_encode evs0 = filter is_encode (filter is_render evs0)"
      by (simp, rule filter_cong) (auto elim: is_encode.elims)
    then show ?thesis by (simp add: render)
  qed
  show ?thesis
  proof (cases r)
    case (Inl e)
    with gen [of w] have g: "(if logo_on then generateQRCodeWithLogo L d ''./src/images/logo1.jpg'' 400
           else generateQRCodeWithoutLogo L d 400) w = (Inl e, w\<lparr>trace := trace w @ evs0\<rparr>)"
      by simp
    note run = handler_gen_fail [OF data tr g [unfolded logo_on_def]]
    have "failed"
      by (simp add: failed_def w'_def evs_def new_events_def run failed_json_def nosend)
    moreover have "length (filter is_encode evs) = 1" "length (filter is_load evs) \<le> 1"
      "length (filter is_write evs) \<le> 1"
      using encode1 load nowrite by (simp_all add: evs_def new_events_def run)
    ultimately show ?thesis by simp
  next
    case (Inr url)
    with gen [of w] have g: "(if logo_on then generateQRCodeWithLogo L d ''./src/images/logo1.jpg'' 400
           else generateQRCodeWithoutLogo L d 400) w = (Inr url, w\<lparr>trace := trace w @ evs0\<rparr>)"
      by simp
    note run = handler_gen_ok [OF data tr g [unfolded logo_on_def]]
    have a: "\<forall>e. fst (generate_qr_try L req_body w) = Inl e \<longrightarrow> failed"
      by (simp add: failed_def w'_def evs_def new_events_def run save_and_send_run
          failed_json_def nosend)
    have b: "\<forall>e. QRCode_toCanvas L (createCanvas L 400 400) d qr_render_options \<noteq> Inl e"
      using enc Inr by auto
    have c: "\<forall>e. \<not> (logo_on \<and> loadImage L ''./src/images/logo1.jpg'' = Inl e)"
      using img Inr by auto
    have d: "write_throws w file \<longrightarrow> failed"
      by (simp add: failed_def w'_def evs_def new_events_def run save_and_send_run
          failed_json_def nosend file_def)
    have e: "length (filter is_encode evs) = 1" "length (filter is_load evs) \<le> 1"
      "length (filter is_write evs) \<le> 1"
      using encode1 load nowrite
      by (simp_all add: evs_def new_events_def run save_and_send_run)
    from a b c d e show ?thesis by blast
  qed
qed

theorem internal_failures_collapse_to_500_witness:
  "[''data'' \<mapsto> JString ''hello''] ''data'' = Some (JString ''hello'') \<and>
   truthy (JString ''hello'') \<and>
   truthy (case [''data'' \<mapsto> JString ''hello''] ''enableLogo'' of
             None \<Rightarrow> JBool True | Some v \<Rightarrow> v) \<and>
   loadImage demo_libs_no_logo ''./src/images/logo1.jpg'' = Inl (JsError ''ENOENT'') \<and>
   statusCode (res (generate_qr demo_libs_no_logo [''data'' \<mapsto> JString ''hello''] demo_world)) = 500 \<and>
   body (res (generate_qr demo_libs_no_logo [''data'' \<mapsto> JString ''hello''] demo_world)) =
     Some (JsonBody (JObject [(''error'', JString ''Failed to generate QR code'')])) \<and>
   filter is_send (new_events demo_libs_no_logo [''data'' \<mapsto> JString ''hello''] demo_world) = [] \<and>
   length (filter is_encode
     (new_events demo_libs_no_logo [''data'' \<mapsto> JString ''hello''] demo_world)) = 1"
proof -
  have h1: "[''data'' \<mapsto> JString ''hello''] ''data'' = Some (JString ''hello'')"
    and h2: "truthy (JString ''hello'')"
    and h3: "truthy (case [''data'' \<mapsto> JString ''hello''] ''enableLogo'' of
             None \<Rightarrow> JBool True | Some v \<Rightarrow> v)"
    and h4: "loadImage demo_libs_no_logo ''./src/images/logo1.jpg'' = Inl (JsError ''ENOENT'')"
    by (simp_all add: demo_libs_no_logo_def demo_libs_def)
  from internal_failures_collapse_to_500
         [where L = demo_libs_no_logo and w = demo_world
            and req_body = "[''data'' \<mapsto> JString ''hello'']" and d = "JString ''hello''",
          OF h1 h2] h1 h2 h3 h4
  show ?thesis by simp
qed

text \<open>
  C6. Both generation functions call the encoder with error-correction level H, margin 1,
  dark \<open>#000000\<close> and light \<open>#ffffff\<close>, on a canvas of the width they are given; the
  handler gives them 400 on either path.
\<close>

theorem renderer_configuration_fixed:
  fixes L :: "('c, 'i) libs" and req_body :: "string \<rightharpoonup> json" and w :: world
  defines "opts \<equiv> \<lparr> errorCorrectionLevel = ''H'', margin = 1,
                      color_dark = ''#000000'', color_light = ''#ffffff'' \<rparr>"
  shows "filter is_render
           (drop (length (trace w)) (trace (snd (generateQRCodeWithLogo L d p width w)))) =
           [CreateCanvas width width, QRCodeToCanvas d opts] \<and>
         filter is_render
           (drop (length (trace w)) (trace (snd (generateQRCodeWithoutLogo L d width w)))) =
           [CreateCanvas width width, QRCodeToCanvas d opts] \<and>
         (\<forall>d'. req_body ''data'' = Some d' \<and> truthy d' \<longrightarrow>
            filter is_render (new_events L req_body w) =
              [CreateCanvas 400 400, QRCodeToCanvas d' opts])"
proof (intro conjI allI impI)
  show "filter is_render
           (drop (length (trace w)) (trace (snd (generateQRCodeWithLogo L d p width w)))) =
           [CreateCanvas width width, QRCodeToCanvas d opts]"
    by (cases rule: generateQRCodeWithLogo_cases [of L width d p])
       (simp_all add: opts_def qr_render_options_def)
  show "filter is_render
           (drop (length (trace w)) (trace (snd (generateQRCodeWithoutLogo L d width w)))) =
           [CreateCanvas width width, QRCodeToCanvas d opts]"
    by (cases rule: generateQRCodeWithoutLogo_cases [of L width d])
       (simp_all add: opts_def qr_render_options_def)
next
  fix d' assume "req_body ''data'' = Some d' \<and> truthy d'"
  then have data: "req_body ''data'' = Some d'" and tr: "truthy d'" by simp_all
  obtain r evs0 where
    gen: "\<And>w. (if truthy (case req_body ''enableLogo'' of None \<Rightarrow> JBool True | Some v \<Rightarrow> v)
           then generateQRCodeWithLogo L d' ''./src/images/logo1.jpg'' 400
           else generateQRCodeWithoutLogo L d' 400) w = (r, w\<lparr>trace := trace w @ evs0\<rparr>)"
    and render: "filter is_render evs0 = [CreateCanvas 400 400, QRCodeToCanvas d' qr_render_options]"
    by (rule generation_summary [of req_body L d']) blast
  obtain rest where "new_events L req_body w = evs0 @ rest" "filter is_render rest = []"
    by (rule handler_events [OF data tr gen])
  with render show "filter is_render (new_events L req_body w) =
              [CreateCanvas 400 400, QRCodeToCanvas d' opts]"
    by (simp add: opts_def qr_render_options_def)
qed


theorem renderer_configuration_fixed_witness:
  "[''data'' \<mapsto> JString ''hello'', ''enableLogo'' \<mapsto> JBool False] ''data'' =
     Some (JString ''hello'') \<and>
   truthy (JString ''hello'') \<and>
   filter is_render
     (new_events demo_libs [''data'' \<mapsto> JString ''hello'', ''enableLogo'' \<mapsto> JBool False]
        demo_world) =
     [CreateCanvas 400 400,
      QRCodeToCanvas (JString ''hello'')
        \<lparr> errorCorrectionLevel = ''H'', margin = 1,
          color_dark = ''#000000'', color_light = ''#ffffff'' \<rparr>]"
proof -
  have h1: "[''data'' \<mapsto> JString ''hello'', ''enableLogo'' \<mapsto> JBool False] ''data'' =
     Some (JString ''hello'')"
    and h2: "truthy (JString ''hello'')"
    by simp_all
  from renderer_configuration_fixed
         [where L = demo_libs and w = demo_world
            and req_body = "[''data'' \<mapsto> JString ''hello'', ''enableLogo'' \<mapsto> JBool False]",
          THEN conjunct2, THEN conjunct2, THEN spec, of "JString ''hello''"]
       h1 h2
  show ?thesis by simp
qed

text \<open>
  C7. The directory the image is saved in is \<open>path.join(__dirname, "output")\<close>: it lies
  beside \<open>server.js\<close>, not in the working directory of the process. For a process started
  in \<open>/app\<close> as \<open>node src/server.js\<close> the image is sent, nothing is at \<open>/app/output\<close>,
  and the file is \<open>/app/src/output/qr-code-1700000000000.png\<close>.
\<close>

theorem output_directory_counterexample:
  "ResSend [65, 65] \<in> set (new_events demo_libs [''data'' \<mapsto> JString ''hello''] demo_world) \<and>
   cwd demo_world = ''/app'' \<and>
   fs (generate_qr demo_libs [''data'' \<mapsto> JString ''hello''] demo_world)
      (path_join (cwd demo_world) ''output'') = None \<and>
   fs (generate_qr demo_libs [''data'' \<mapsto> JString ''hello''] demo_world)
      (path_join (path_join (cwd demo_world) ''output'')
         (''qr-code-'' @ show_nat (clock demo_world) @ ''.png'')) = None \<and>
   fs (generate_qr demo_libs [''data'' \<mapsto> JString ''hello''] demo_world)
      ''/app/src/output/qr-code-1700000000000.png'' = Some (File [65, 65])"
  by (simp add: demo_eval)

text \<open>
  C7, as the code has it. When the image is sent, the same bytes are in the file
  \<open>qr-code-<Date.now()>.png\<close> of the directory \<open>output\<close> under \<open>__dirname\<close>; a directory
  that was absent has been made by \<open>fs.mkdirSync\<close>, one that was there is as it was; and
  the run ends with the write, the log line, the two headers and the send, in this order.
\<close>

theorem image_saved_under_dirname_before_send:
  fixes L :: "('c, 'i) libs" and req_body :: "string \<rightharpoonup> json" and w :: world
  assumes sent: "ResSend b \<in> set (new_events L req_body w)"
  defines "w' \<equiv> generate_qr L req_body w"
    and "dir \<equiv> path_join (dirname w) ''output''"
  defines "file \<equiv> path_join dir (''qr-code-'' @ show_nat (clock w) @ ''.png'')"
  shows "fs w' file = Some (File b) \<and>
         (fs w dir = None \<longrightarrow> fs w' dir = Some Dir \<and> MkdirSync dir \<in> set (new_events L req_body w)) \<and>
         (fs w dir \<noteq> None \<longrightarrow> fs w' dir = fs w dir) \<and>
         (\<exists>pre. new_events L req_body w =
            pre @ [WriteFileSync file b, ConsoleLog (''QR code saved to: '' @ file),
                   ResSetHeader ''Content-Type'' ''image/png'',
                   ResSetHeader ''Content-Disposition'' ''inline; filename=qr-code.png'',
                   ResSend b])"
proof -
  have early: "new_events L req_body w = [ResStatus 400, ResJson missing_data_json]"
    if "req_body ''data'' = None \<or> (\<exists>d. req_body ''data'' = Some d \<and> \<not> truthy d)"
    using that by (auto simp: generate_qr_def generate_qr_try_def new_events_def eff_defs)
  have "\<not> (req_body ''data'' = None \<or> (\<exists>d. req_body ''data'' = Some d \<and> \<not> truthy d))"
  proof
    assume "req_body ''data'' = None \<or> (\<exists>d. req_body ''data'' = Some d \<and> \<not> truthy d)"
    from early [OF this] sent show False by simp
  qed
  then obtain d where data: "req_body ''data'' = Some d" and tr: "truthy d"
    by (cases "req_body ''data''") auto
  obtain r evs0 where
    gen: "\<And>w. (if truthy (case req_body ''enableLogo'' of None \<Rightarrow> JBool True | Some v \<Rightarrow> v)
           then generateQRCodeWithLogo L d ''./src/images/logo1.jpg'' 400
           else generateQRCodeWithoutLogo L d 400) w = (r, w\<lparr>trace := trace w @ evs0\<rparr>)"
    and nosend: "filter is_send evs0 = []"
    by (rule generation_summary [of req_body L d]) blast
  note nosend' = no_send_in [OF nosend, of b]
  have neq: "file \<noteq> dir"
    unfolding file_def by (rule path_join_longer) simp
  show ?thesis
  proof (cases r)
    case (Inl e)
    note run = handler_gen_fail [OF data tr gen [of w, unfolded Inl]]
    from sent nosend' show ?thesis by (simp add: new_events_def run)
  next
    case (Inr url)
    note run = handler_gen_ok [OF data tr gen [of w, unfolded Inr]]
    let ?buf = "Buffer_from_base64 L (strip_data_url url)"
    let ?made = "if fs w dir = None then [MkdirSync dir] else []"
    from sent nosend' have ok: "\<not> (fs w dir = None \<and> mkdir_throws w dir)" "\<not> write_throws w file"
      and b: "b = ?buf"
      by (auto simp: new_events_def run save_and_send_run dir_def file_def split: if_splits)
    have evs: "new_events L req_body w =
        (evs0 @ ExistsSync dir # ?made) @
          [WriteFileSync file b, ConsoleLog (''QR code saved to: '' @ file),
           ResSetHeader ''Content-Type'' ''image/png'',
           ResSetHeader ''Content-Disposition'' ''inline; filename=qr-code.png'',
           ResSend b]"
      using ok by (auto simp: new_events_def run save_and_send_run dir_def file_def b)
    have fs': "fs w' = (if fs w dir = None then (fs w)(dir \<mapsto> Dir) else fs w)(file \<mapsto> File b)"
      using ok by (auto simp: w'_def run save_and_send_run dir_def file_def b)
    have "fs w' file = Some (File b)" by (simp add: fs')
    moreover have "fs w dir = None \<longrightarrow> fs w' dir = Some Dir \<and> MkdirSync dir \<in> set (new_events L req_body w)"
      using neq by (simp add: fs' evs)
    moreover have "fs w dir \<noteq> None \<longrightarrow> fs w' dir = fs w dir"
      using neq by (simp add: fs')
    ultimately show ?thesis using evs by blast
  qed
qed

theorem image_saved_under_dirname_before_send_witness:
  "ResSend [65, 65] \<in> set (new_events demo_libs [''data'' \<mapsto> JString ''hello''] demo_world) \<and>
   fs demo_world ''/app/src/output'' = None \<and>
   fs (generate_qr demo_libs [''data'' \<mapsto> JString ''hello''] demo_world)
      ''/app/src/output/qr-code-1700000000000.png'' = Some (File [65, 65]) \<and>
   fs (generate_qr demo_libs [''data'' \<mapsto> JString ''hello''] demo_world)
      ''/app/src/output'' = Some Dir \<and>
   MkdirSync ''/app/src/output''
     \<in> set (new_events demo_libs [''data'' \<mapsto> JString ''hello''] demo_world)"
proof -
  have sent: "ResSend [65, 65]
      \<in> set (new_events demo_libs [''data'' \<mapsto> JString ''hello''] demo_world)"
    by (simp add: demo_eval)
  have paths: "path_join (dirname demo_world) ''output'' = ''/app/src/output''"
    "path_join ''/app/src/output'' (''qr-code-'' @ show_nat (clock demo_world) @ ''.png'') =
     ''/app/src/output/qr-code-1700000000000.png''"
    and absent: "fs demo_world ''/app/src/output'' = None"
    by (simp_all add: demo_world_def path_join_def show_nat.simps digit_char_def)
  from image_saved_under_dirname_before_send [OF sent, unfolded paths] sent absent
  show ?thesis by simp
qed

text \<open>
  C10. A logo whose natural width and height are both at most a fifth of the canvas width
  keeps its natural dimensions, and \<open>drawImage\<close> is called once, with them.
\<close>

theorem small_logo_drawn_at_natural_size:
  fixes L :: "('c, 'i) libs" and w :: world
  assumes "lw \<le> width / 5" and "lh \<le> width / 5"
  shows "logoWidthFinal (logo_geometry lw lh width) = lw \<and>
         logoHeightFinal (logo_geometry lw lh width) = lh \<and>
         (\<forall>c img. QRCode_toCanvas L (createCanvas L width width) d qr_render_options = Inr c \<and>
                  loadImage L p = Inr img \<and> img_width L img = lw \<and> img_height L img = lh \<longrightarrow>
            filter is_draw
              (drop (length (trace w)) (trace (snd (generateQRCodeWithLogo L d p width w)))) =
              [DrawImage (Math_round ((width - lw) / 2)) (Math_round ((width - lh) / 2)) lw lh])"
proof -
  from assms have geo: "logo_geometry lw lh width =
      \<lparr> draw_x = Math_round ((width - lw) / 2), draw_y = Math_round ((width - lh) / 2),
        logoWidthFinal = lw, logoHeightFinal = lh \<rparr>"
    by (simp add: logo_geometry_def clamp_width_def clamp_height_def Let_def)
  have "filter is_draw
          (drop (length (trace w)) (trace (snd (generateQRCodeWithLogo L d p width w)))) =
          [DrawImage (Math_round ((width - lw) / 2)) (Math_round ((width - lh) / 2)) lw lh]"
    if "QRCode_toCanvas L (createCanvas L width width) d qr_render_options = Inr c"
      "loadImage L p = Inr img" "img_width L img = lw" "img_height L img = lh" for c img
    using that by (cases rule: generateQRCodeWithLogo_cases [of L width d p]) (simp_all add: geo)
  with geo show ?thesis by simp
qed

theorem small_logo_drawn_at_natural_size_witness:
  "(200 :: rat) \<le> 1000 / 5 \<and>
   loadImage demo_libs ''./src/images/logo1.jpg'' = Inr (200, 200) \<and>
   logoWidthFinal (logo_geometry 200 200 1000) = 200 \<and>
   logoHeightFinal (logo_geometry 200 200 1000) = 200 \<and>
   filter is_draw
     (drop (length (trace demo_world))
        (trace (snd (generateQRCodeWithLogo demo_libs (JString ''hello'')
                       ''./src/images/logo1.jpg'' 1000 demo_world)))) =
     [DrawImage 400 400 200 200]"
proof -
  have h: "(200 :: rat) \<le> 1000 / 5" by simp
  have c: "QRCode_toCanvas demo_libs (createCanvas demo_libs 1000 1000) (JString ''hello'')
             qr_render_options = Inr [QRSymbol (JString ''hello'') qr_render_options]"
    and i: "loadImage demo_libs ''./src/images/logo1.jpg'' = Inr (200, 200)"
    and wh: "img_width demo_libs (200, 200) = 200" "img_height demo_libs (200, 200) = 200"
    by (simp_all add: demo_libs_def)
  have r: "Math_round ((1000 - 200) / 2) = 400"
    by (simp add: Math_round_def floor_numeral_div)
  from small_logo_drawn_at_natural_size
         [where L = demo_libs and w = demo_world and d = "JString ''hello''"
            and p = "''./src/images/logo1.jpg''", OF h h]
       c i wh r h
  show ?thesis by simp
qed

end
